theory Spec2Isabelle
  imports Main "HOL-Library.Sublist" "HOL-Library.Word"
begin

section \<open>ExcelFlow: the upload / preview / process workflow of \<open>ExcelFlowClient\<close>\<close>

text \<open>
  The component \<open>ExcelFlowClient\<close> (the CSV-aware version, lines 372-765 of
  \<open>src/src/app/page.tsx\<close>) keeps its state in seven \<open>useState\<close> cells and changes it
  only inside callbacks: the file picker and the drop zone (\<open>handleFileSelect\<close>,
  \<open>handleDrop\<close>), the \<open>FileReader\<close> callbacks, the progress interval installed by
  \<open>useEffect\<close>, the confirm button (\<open>handleProcess\<close>) and the reset buttons
  (\<open>handleReset\<close>). Each callback is a function from state to state here. What the
  browser holds for the component (file readers that have not called back, the interval,
  the timeouts, the toasts shown, the files downloaded) is part of the state record too,
  so that a callback that is still to come is visible in the model.

  Conventions of the model:
  \<^item> strings are lists of 8-bit characters; the accented letters of the Spanish messages
    are written by their Latin-1 codes;
  \<^item> one callback reads the clock once: every log entry it writes carries the reading
    \<open>now\<close> that the callback is given;
  \<^item> the state updates of one callback and the effect that React runs after them are
    one step (the updates are batched and committed together);
  \<^item> the spreadsheet library \<open>xlsx\<close> is not part of the repository: its two entry
    points used here are parameters, each of which may throw.
\<close>

subsection \<open>Data\<close>

datatype Status = Idle | Uploading | Preview | Processing | Completed | Error

datatype LogType = info | error

record LogEntry =
  timestamp :: string
  message :: string
  type :: LogType

type_synonym byte = "8 word"

text \<open>The browser's \<open>File\<close>: its name, its declared media type and its bytes.\<close>

record File =
  name :: string
  ftype :: string
  content :: "byte list"

datatype Variant = default | destructive

record Toast =
  title :: string
  description :: string
  variant :: Variant

text \<open>
  A cell of a decoded sheet is a string, a number or a boolean. Of the numbers of
  JavaScript (IEEE doubles) the model holds the integers from \<open>- 2^53\<close> to \<open>2^53 - 1\<close>
  only, which a double holds exactly; they are kept in a 54-bit word read as a signed
  number (\<open>sint\<close>), so that the type has no other value. No arithmetic is done on
  cells. Fractions, larger numbers, dates and \<open>null\<close> are outside the model.

  A row of \<open>sheet_to_json\<close> is an object keyed by header; it is an association list
  with distinct keys in the order in which \<open>Object.keys\<close> enumerates it.
\<close>

datatype cell = CStr string | CNum "54 word" | CBool bool

type_synonym row = "(string \<times> cell) list"

datatype exn = JsError string

record 'w workbook =
  SheetNames :: "string list"
  Sheets :: "string \<Rightarrow> 'w option"

record 'w XLSX =
  xlsx_read :: "byte list \<Rightarrow> exn + 'w workbook"
  xlsx_sheet_to_json :: "'w option \<Rightarrow> exn + row list"

text \<open>
  The seven \<open>useState\<close> cells, then what the browser holds: \<open>toasts\<close> (shown so far),
  \<open>readers\<close> (the files of the \<open>FileReader\<close>s that have not called back), \<open>ticker\<close>
  (the interval of the effect with the file its closure captured, if it is installed),
  \<open>delays\<close> (the data captured by each \<open>handleProcess\<close> call that is waiting on its
  1500 ms timeout) and \<open>downloads\<close> (file name and text of each artifact offered).
\<close>

record state =
  status :: Status
  "file" :: "File option"
  progress :: nat
  logs :: "LogEntry list"
  isDragging :: bool
  sheetHeaders :: "string list"
  jsonData :: "row list"
  toasts :: "Toast list"
  readers :: "File list"
  ticker :: "File option"
  delays :: "row list list"
  downloads :: "(string \<times> string) list"

definition init :: state where
  "init = \<lparr>status = Idle, file = None, progress = 0, logs = [], isDragging = False,
            sheetHeaders = [], jsonData = [], toasts = [], readers = [], ticker = None,
            delays = [], downloads = []\<rparr>"

abbreviation a_acute :: char where "a_acute \<equiv> CHR 0xE1"
abbreviation e_acute :: char where "e_acute \<equiv> CHR 0xE9"
abbreviation i_acute :: char where "i_acute \<equiv> CHR 0xED"
abbreviation o_acute :: char where "o_acute \<equiv> CHR 0xF3"
abbreviation dquote :: char where "dquote \<equiv> CHR 0x22"
abbreviation backslash :: char where "backslash \<equiv> CHR 0x5C"

definition ACCEPTED_FILE_TYPES :: "string list" where
  "ACCEPTED_FILE_TYPES =
     [''application/vnd.openxmlformats-officedocument.spreadsheetml.sheet'',
      ''application/vnd.ms-excel'',
      ''text/csv'']"

subsection \<open>Logging and toasts\<close>

definition addLog :: "string \<Rightarrow> string \<Rightarrow> LogType \<Rightarrow> state \<Rightarrow> state" where
  "addLog now msg ty s = s\<lparr>logs := \<lparr>timestamp = now, message = msg, type = ty\<rparr> # logs s\<rparr>"

definition toast :: "Toast \<Rightarrow> state \<Rightarrow> state" where
  "toast t s = s\<lparr>toasts := toasts s @ [t]\<rparr>"

definition msg_invalid_type :: "string \<Rightarrow> string" where
  "msg_invalid_type n = ''Tipo de archivo inv'' @ [a_acute] @ ''lido: '' @ n @
     ''. Por favor, sube un archivo .xlsx, .xls o .csv.''"

definition toast_invalid_format :: Toast where
  "toast_invalid_format = \<lparr>title = ''Formato de Archivo Inv'' @ [a_acute] @ ''lido'',
     description = ''Por favor, sube un archivo de Excel o CSV v'' @ [a_acute] @ ''lido.'',
     variant = destructive\<rparr>"

definition msg_selected :: "string \<Rightarrow> string" where
  "msg_selected n = ''Archivo seleccionado: '' @ [dquote] @ n @ [dquote]"

definition msg_parsed :: string where
  "msg_parsed = ''Datos del archivo analizados con '' @ [e_acute] @
     ''xito. Mostrando todos los datos de la hoja.''"

definition msg_empty :: string where
  "msg_empty = ''El archivo seleccionado est'' @ [a_acute] @ '' vac'' @ [i_acute] @
     ''o o no tiene datos.''"

definition toast_empty :: Toast where
  "toast_empty = \<lparr>title = ''Archivo Vac'' @ [i_acute] @ ''o'',
     description = ''El archivo de Excel o CSV seleccionado parece estar vac'' @ [i_acute] @ ''o.'',
     variant = destructive\<rparr>"

definition msg_corrupt :: string where
  "msg_corrupt = ''No se pudo analizar el archivo. Podr'' @ [i_acute] @
     ''a estar corrupto o en un formato no compatible.''"

definition toast_corrupt :: Toast where
  "toast_corrupt = \<lparr>title = ''Error al Analizar el Archivo'', description = msg_corrupt,
     variant = destructive\<rparr>"

definition msg_read_error :: string where
  "msg_read_error = ''Ocurri'' @ [o_acute] @ '' un error al leer el archivo.''"

definition toast_read_error :: Toast where
  "toast_read_error = \<lparr>title = ''Error al Leer el Archivo'', description = msg_read_error,
     variant = destructive\<rparr>"

definition msg_upload_start :: string where
  "msg_upload_start = ''Iniciando la carga del archivo...''"

definition msg_uploaded :: "string \<Rightarrow> string" where
  "msg_uploaded n = [dquote] @ n @ [dquote] @ '' subido con '' @ [e_acute] @
     ''xito. Listo para previsualizar.''"

definition msg_preparing :: string where
  "msg_preparing = ''Los datos ya est'' @ [a_acute] @
     ''n estructurados. Preparando para la descarga...''"

definition msg_generated :: string where
  "msg_generated = ''Se gener'' @ [o_acute] @ '' y descarg'' @ [o_acute] @
     '' processed_data.json con '' @ [e_acute] @ ''xito.''"

definition msg_json_failed :: string where
  "msg_json_failed = ''No se pudo generar el archivo JSON.''"

definition toast_no_data :: Toast where
  "toast_no_data = \<lparr>title = ''No Hay Datos para Procesar'',
     description = ''No hay datos para procesar. Por favor, sube un archivo v'' @ [a_acute] @ ''lido.'',
     variant = destructive\<rparr>"

definition msg_processing_started :: string where
  "msg_processing_started = ''Procesamiento de datos iniciado...''"

definition msg_processing_done :: string where
  "msg_processing_done = ''Procesamiento de datos completado con '' @ [e_acute] @ ''xito.''"

definition toast_processing_failed :: Toast where
  "toast_processing_failed = \<lparr>title = ''Fall'' @ [o_acute] @ '' el Procesamiento'',
     description = ''No se pudo procesar y generar el archivo JSON.'',
     variant = destructive\<rparr>"

definition msg_processing_failed :: string where
  "msg_processing_failed = ''Fall'' @ [o_acute] @ '' el procesamiento de datos.''"

subsection \<open>\<open>handleFileSelect\<close>: validation and the start of the read\<close>

text \<open>
  \<open>isAccepted\<close> as the source computes it: some entry of the allow-list is a prefix of
  the declared type (\<open>startsWith\<close>), or the name ends in one of the three extensions
  (\<open>endsWith\<close>, case-sensitive).
\<close>

definition isAccepted :: "File \<Rightarrow> bool" where
  "isAccepted selectedFile \<longleftrightarrow>
     list_ex (\<lambda>t. prefix t (ftype selectedFile)) ACCEPTED_FILE_TYPES \<or>
     suffix ''.xlsx'' (name selectedFile) \<or>
     suffix ''.xls'' (name selectedFile) \<or>
     suffix ''.csv'' (name selectedFile)"

text \<open>
  An absent file returns at once. A rejected file logs, toasts and sets \<open>error\<close>; no
  \<open>FileReader\<close> is created. An accepted file is logged and stored, progress and table
  are cleared, a reader is started on it (\<open>readAsArrayBuffer\<close>) and the status becomes
  \<open>uploading\<close>.
\<close>

definition handleFileSelect :: "string \<Rightarrow> File option \<Rightarrow> state \<Rightarrow> state" where
  "handleFileSelect now selectedFile s =
     (case selectedFile of
        None \<Rightarrow> s
      | Some f \<Rightarrow>
          if \<not> isAccepted f then
            (toast toast_invalid_format (addLog now (msg_invalid_type (name f)) error s))
              \<lparr>status := Error\<rparr>
          else
            (addLog now (msg_selected (name f)) info s)
              \<lparr>file := Some f, progress := 0, sheetHeaders := [], jsonData := [],
               readers := readers s @ [f], status := Uploading\<rparr>)"

subsection \<open>The \<open>FileReader\<close> callbacks\<close>

definition Object_keys :: "row \<Rightarrow> string list" where
  "Object_keys r = map fst r"

text \<open>
  \<open>workbook.Sheets[workbook.SheetNames[0]]\<close>: with no sheet name the index is
  \<open>undefined\<close>, which as a property key is the string \<open>undefined\<close>.
\<close>

definition first_worksheet :: "'w workbook \<Rightarrow> 'w option" where
  "first_worksheet wb =
     (case SheetNames wb of [] \<Rightarrow> Sheets wb ''undefined'' | sheetName # _ \<Rightarrow> Sheets wb sheetName)"

text \<open>
  The body of the \<open>try\<close> block of \<open>reader.onload\<close>. \<open>data\<close> is \<open>e.target?.result\<close>:
  \<open>None\<close> when it is missing, which the body turns into a thrown \<open>Error\<close> (an empty
  buffer is an object, hence not missing). The body either throws or returns the
  updated state; \<open>onload_empty\<close> is its \<open>else\<close> branch (no row, or a first row
  without keys).
\<close>

definition onload_empty :: "string \<Rightarrow> state \<Rightarrow> state" where
  "onload_empty now s = (toast toast_empty (addLog now msg_empty error s))\<lparr>status := Error\<rparr>"

definition onload_try :: "'w XLSX \<Rightarrow> string \<Rightarrow> byte list option \<Rightarrow> state \<Rightarrow> exn + state" where
  "onload_try X now data s =
     (case data of
        None \<Rightarrow> Inl (JsError ''No se pudo leer el archivo.'')
      | Some d \<Rightarrow>
         (case xlsx_read X d of
            Inl e \<Rightarrow> Inl e
          | Inr wb \<Rightarrow>
             (case xlsx_sheet_to_json X (first_worksheet wb) of
                Inl e \<Rightarrow> Inl e
              | Inr parsedData \<Rightarrow>
                  if length parsedData > 0 \<and> length (Object_keys (hd parsedData)) > 0 then
                    Inr (addLog now msg_parsed info
                           (s\<lparr>sheetHeaders := Object_keys (hd parsedData),
                              jsonData := parsedData\<rparr>))
                  else Inr (onload_empty now s))))"

definition onload_catch :: "string \<Rightarrow> state \<Rightarrow> state" where
  "onload_catch now s = (toast toast_corrupt (addLog now msg_corrupt error s))\<lparr>status := Error\<rparr>"

definition reader_onload :: "'w XLSX \<Rightarrow> string \<Rightarrow> byte list option \<Rightarrow> state \<Rightarrow> state" where
  "reader_onload X now data s =
     (case onload_try X now data s of Inr s' \<Rightarrow> s' | Inl e \<Rightarrow> onload_catch now s)"

definition reader_onerror :: "string \<Rightarrow> state \<Rightarrow> state" where
  "reader_onerror now s =
     (toast toast_read_error (addLog now msg_read_error error s))\<lparr>status := Error\<rparr>"

subsection \<open>The progress ticker\<close>

text \<open>
  The effect depends on \<open>status\<close> and \<open>file\<close>. After a commit that changed one of them
  React runs the cleanup of the previous run (\<open>clearInterval\<close>) and then the effect:
  in \<open>uploading\<close> with a file it logs and installs the interval.
\<close>

definition useEffect :: "string \<Rightarrow> state \<Rightarrow> state \<Rightarrow> state" where
  "useEffect now prev s =
     (if status prev = status s \<and> file prev = file s then s
      else
        let s1 = s\<lparr>ticker := None\<rparr> in
        (case file s1 of
           Some f \<Rightarrow>
             if status s1 = Uploading then (addLog now msg_upload_start info s1)\<lparr>ticker := Some f\<rparr>
             else s1
         | None \<Rightarrow> s1))"

text \<open>
  One fire of the interval, whose closure captured the file \<open>f\<close>: the updater of
  \<open>setProgress\<close>.
\<close>

definition ticker_fire :: "string \<Rightarrow> File \<Rightarrow> state \<Rightarrow> state" where
  "ticker_fire now f s =
     (if progress s \<ge> 100 then
        (addLog now (msg_uploaded (name f)) info (s\<lparr>ticker := None, status := Preview\<rparr>))
          \<lparr>progress := 100\<rparr>
      else s\<lparr>progress := progress s + 10\<rparr>)"

subsection \<open>\<open>JSON.stringify(dataToProcess, null, 2)\<close>\<close>

text \<open>
  The serialisation of an array of flat objects with an indentation of two spaces, as
  ECMA-262 defines it (\<open>SerializeJSONArray\<close>, \<open>SerializeJSONObject\<close>,
  \<open>QuoteJSONString\<close>): an empty array is \<open>[]\<close>, an empty object \<open>{}\<close>; otherwise each
  element is on a line of its own, indented one level more than the bracket that closes
  the list. A number is written by \<open>Number::toString\<close>, which for an integer of
  magnitude below \<open>10^21\<close> (every number of a cell is one) gives its decimal digits.
\<close>

abbreviation newline :: char where "newline \<equiv> CHR 0x0A"

text \<open>The decimal digits of an integer that is not negative.\<close>

function show_nat :: "int \<Rightarrow> string" where
  "show_nat n =
     (if n < 10 then [char_of (48 + n)] else show_nat (n div 10) @ [char_of (48 + n mod 10)])"
  by pat_completeness auto
termination
  by (relation "measure nat") auto

declare show_nat.simps [simp del]

definition Number_toString :: "54 word \<Rightarrow> string" where
  "Number_toString w =
     (if sint w < 0 then CHR ''-'' # show_nat (- sint w) else show_nat (sint w))"

definition hex_digit :: "nat \<Rightarrow> char" where
  "hex_digit n = (if n < 10 then char_of (48 + n) else char_of (87 + n))"

definition quote_char :: "char \<Rightarrow> string" where
  "quote_char c =
     (if c = CHR 0x08 then [backslash, CHR ''b'']
      else if c = CHR 0x09 then [backslash, CHR ''t'']
      else if c = CHR 0x0A then [backslash, CHR ''n'']
      else if c = CHR 0x0C then [backslash, CHR ''f'']
      else if c = CHR 0x0D then [backslash, CHR ''r'']
      else if c = dquote then [backslash, dquote]
      else if c = backslash then [backslash, backslash]
      else if (of_char c :: nat) < 32 then
        [backslash, CHR ''u'', CHR ''0'', CHR ''0'',
         hex_digit (of_char c div 16), hex_digit (of_char c mod 16)]
      else [c])"

definition QuoteJSONString :: "string \<Rightarrow> string" where
  "QuoteJSONString v = [dquote] @ concat (map quote_char v) @ [dquote]"

fun join :: "string \<Rightarrow> string list \<Rightarrow> string" where
  "join sep [] = []"
| "join sep [x] = x"
| "join sep (x # y # ys) = x @ sep @ join sep (y # ys)"

fun SerializeJSONProperty :: "cell \<Rightarrow> string" where
  "SerializeJSONProperty (CStr v) = QuoteJSONString v"
| "SerializeJSONProperty (CNum w) = Number_toString w"
| "SerializeJSONProperty (CBool b) = (if b then ''true'' else ''false'')"

definition SerializeJSONObject :: "string \<Rightarrow> row \<Rightarrow> string" where
  "SerializeJSONObject stepback r =
     (if r = [] then ''{}''
      else
        let indent = stepback @ ''  '' in
        ''{'' @ [newline] @ indent @
        join ('','' @ [newline] @ indent)
          (map (\<lambda>(k, v). QuoteJSONString k @ '': '' @ SerializeJSONProperty v) r) @
        [newline] @ stepback @ ''}'')"

definition SerializeJSONArray :: "row list \<Rightarrow> string" where
  "SerializeJSONArray rows =
     (if rows = [] then ''[]''
      else
        ''['' @ [newline] @ ''  '' @
        join ('','' @ [newline] @ ''  '') (map (SerializeJSONObject ''  '') rows) @
        [newline] @ '']'')"

definition JSON_stringify :: "row list \<Rightarrow> string" where
  "JSON_stringify dataToProcess = SerializeJSONArray dataToProcess"

subsection \<open>\<open>handleProcess\<close> and \<open>simulateBackendProcessing\<close>\<close>

text \<open>
  \<open>simulateBackendProcessing\<close> logs, then inside its \<open>try\<close> serialises the data and
  hands the text to the browser as the download \<open>processed_data.json\<close>. \<open>thrown\<close> is
  what the browser calls of that block throw, if anything; the \<open>catch\<close> logs and
  returns \<open>false\<close>.
\<close>

definition simulateBackendProcessing ::
    "string \<Rightarrow> exn option \<Rightarrow> row list \<Rightarrow> state \<Rightarrow> bool \<times> state" where
  "simulateBackendProcessing now thrown dataToProcess s =
     (let s1 = addLog now msg_preparing info s in
      case thrown of
        None \<Rightarrow>
          (let jsonString = JSON_stringify dataToProcess;
               s2 = s1\<lparr>downloads := downloads s1 @ [(''processed_data.json'', jsonString)]\<rparr>
           in (True, addLog now msg_generated info s2))
      | Some e \<Rightarrow> (False, addLog now msg_json_failed error s1))"

text \<open>
  \<open>handleProcess\<close> up to its first \<open>await\<close>: with no data it toasts and returns;
  otherwise it sets \<open>processing\<close>, logs and starts the 1500 ms timeout, whose
  continuation keeps the \<open>jsonData\<close> of this call.
\<close>

definition handleProcess :: "string \<Rightarrow> state \<Rightarrow> state" where
  "handleProcess now s =
     (if length (jsonData s) = 0 then toast toast_no_data s
      else
        (addLog now msg_processing_started info (s\<lparr>status := Processing\<rparr>))
          \<lparr>delays := delays s @ [jsonData s]\<rparr>)"

text \<open>The rest of \<open>handleProcess\<close>, run when the timeout fires.\<close>

definition handleProcess_resume :: "string \<Rightarrow> exn option \<Rightarrow> row list \<Rightarrow> state \<Rightarrow> state" where
  "handleProcess_resume now thrown dataToProcess s =
     (case simulateBackendProcessing now thrown dataToProcess s of
        (success, s1) \<Rightarrow>
          if success then addLog now msg_processing_done info (s1\<lparr>status := Completed\<rparr>)
          else addLog now msg_processing_failed error
                 (toast toast_processing_failed (s1\<lparr>status := Error\<rparr>)))"

subsection \<open>Reset and the drag handlers\<close>

definition handleReset :: "state \<Rightarrow> state" where
  "handleReset s =
     s\<lparr>status := Idle, file := None, progress := 0, logs := [], sheetHeaders := [],
       jsonData := []\<rparr>"

definition handleDragEnter :: "state \<Rightarrow> state" where
  "handleDragEnter s = s\<lparr>isDragging := True\<rparr>"

definition handleDragLeave :: "state \<Rightarrow> state" where
  "handleDragLeave s = s\<lparr>isDragging := False\<rparr>"

definition handleDragOver :: "state \<Rightarrow> state" where
  "handleDragOver s = s"

definition handleDrop :: "string \<Rightarrow> File option \<Rightarrow> state \<Rightarrow> state" where
  "handleDrop now droppedFile s = handleFileSelect now droppedFile (s\<lparr>isDragging := False\<rparr>)"

subsection \<open>What is rendered\<close>

text \<open>
  \<open>renderContent\<close> shows the drop zone and the file input in \<open>idle\<close> and \<open>error\<close>
  only. \<open>renderFooter\<close> shows one control per status; the confirm button carries its
  \<open>disabled\<close> attribute.
\<close>

definition dropzone_rendered :: "state \<Rightarrow> bool" where
  "dropzone_rendered s \<longleftrightarrow> status s = Idle \<or> status s = Error"

datatype control = ConfirmButton bool | ProcessingButton | StartOverButton | TryAgainButton

definition renderFooter :: "state \<Rightarrow> control option" where
  "renderFooter s =
     (case status s of
        Preview \<Rightarrow> Some (ConfirmButton (length (jsonData s) = 0))
      | Processing \<Rightarrow> Some ProcessingButton
      | Completed \<Rightarrow> Some StartOverButton
      | Error \<Rightarrow> Some TryAgainButton
      | _ \<Rightarrow> None)"

subsection \<open>The machine: events, what enables them, one step\<close>

text \<open>
  The events are the callbacks the browser can deliver. A user event is enabled when its
  control is rendered (and not disabled); a reader, ticker or timeout event when that
  reader, interval or timeout is outstanding. \<open>step\<close> runs the callback and then the
  effect of the commit.
\<close>

datatype event =
    FileChosen "File option"
  | DragEnter
  | DragLeave
  | DragOver
  | Drop "File option"
  | ReaderLoaded nat
  | ReaderFailed nat
  | TickerFired
  | ConfirmClicked
  | DelayElapsed "exn option"
  | ResetClicked

definition remove_nth :: "nat \<Rightarrow> 'a list \<Rightarrow> 'a list" where
  "remove_nth i xs = take i xs @ drop (Suc i) xs"

fun enabled :: "event \<Rightarrow> state \<Rightarrow> bool" where
  "enabled (FileChosen f) s = dropzone_rendered s"
| "enabled DragEnter s = dropzone_rendered s"
| "enabled DragLeave s = dropzone_rendered s"
| "enabled DragOver s = dropzone_rendered s"
| "enabled (Drop f) s = dropzone_rendered s"
| "enabled (ReaderLoaded i) s = (i < length (readers s))"
| "enabled (ReaderFailed i) s = (i < length (readers s))"
| "enabled TickerFired s = (ticker s \<noteq> None)"
| "enabled ConfirmClicked s = (renderFooter s = Some (ConfirmButton False))"
| "enabled (DelayElapsed thrown) s = (delays s \<noteq> [])"
| "enabled ResetClicked s =
     (renderFooter s = Some StartOverButton \<or> renderFooter s = Some TryAgainButton)"

fun handle :: "'w XLSX \<Rightarrow> string \<Rightarrow> event \<Rightarrow> state \<Rightarrow> state" where
  "handle X now (FileChosen f) s = handleFileSelect now f s"
| "handle X now DragEnter s = handleDragEnter s"
| "handle X now DragLeave s = handleDragLeave s"
| "handle X now DragOver s = handleDragOver s"
| "handle X now (Drop f) s = handleDrop now f s"
| "handle X now (ReaderLoaded i) s =
     (if i < length (readers s) then
        reader_onload X now (Some (content (readers s ! i)))
          (s\<lparr>readers := remove_nth i (readers s)\<rparr>)
      else s)"
| "handle X now (ReaderFailed i) s =
     (if i < length (readers s) then reader_onerror now (s\<lparr>readers := remove_nth i (readers s)\<rparr>)
      else s)"
| "handle X now TickerFired s = (case ticker s of Some f \<Rightarrow> ticker_fire now f s | None \<Rightarrow> s)"
| "handle X now ConfirmClicked s = handleProcess now s"
| "handle X now (DelayElapsed thrown) s =
     (case delays s of
        dataToProcess # ds \<Rightarrow> handleProcess_resume now thrown dataToProcess (s\<lparr>delays := ds\<rparr>)
      | [] \<Rightarrow> s)"
| "handle X now ResetClicked s = handleReset s"

definition step :: "'w XLSX \<Rightarrow> string \<Rightarrow> event \<Rightarrow> state \<Rightarrow> state" where
  "step X now e s = (if enabled e s then useEffect now s (handle X now e s) else s)"

fun run :: "'w XLSX \<Rightarrow> string \<Rightarrow> event list \<Rightarrow> state \<Rightarrow> state" where
  "run X now [] s = s"
| "run X now (e # es) s = run X now es (step X now e s)"

inductive reachable :: "'w XLSX \<Rightarrow> state \<Rightarrow> bool" for X :: "'w XLSX" where
  reachable_init: "reachable X init"
| reachable_step: "reachable X s \<Longrightarrow> reachable X (step X now e s)"

subsection \<open>Reading the artifact back: \<open>JSON.parse\<close>\<close>

text \<open>
  The component never parses JSON; \<open>JSON.parse\<close> is modelled here only to state what a
  reader of \<open>processed_data.json\<close> gets back. The model has three answers. \<open>Inr rows\<close>:
  the built-in returns this array of flat objects. \<open>Inl SyntaxError\<close>: the built-in
  throws. \<open>Inl OutsideModel\<close>: no statement is made, because the text holds (or may hold)
  a value that the types of this theory cannot represent: a top-level value that is no array,
  an element that is no object, a nested value, \<open>null\<close>, a number that is no integer
  of magnitude below \<open>2^53\<close>, an escape beyond Latin-1; or because the fuel of the two loops
  ran out (the length of the text is always enough: each round consumes a character).
\<close>

datatype json_fail = SyntaxError | OutsideModel

definition is_ws :: "char \<Rightarrow> bool" where
  "is_ws c \<longleftrightarrow> c = CHR '' '' \<or> c = CHR 0x09 \<or> c = newline \<or> c = CHR 0x0D"

definition skip_ws :: "string \<Rightarrow> string" where
  "skip_ws cs = dropWhile is_ws cs"

definition unhex :: "char \<Rightarrow> nat option" where
  "unhex c =
     (let n = (of_char c :: nat) in
      if 48 \<le> n \<and> n \<le> 57 then Some (n - 48)
      else if 97 \<le> n \<and> n \<le> 102 then Some (n - 87)
      else if 65 \<le> n \<and> n \<le> 70 then Some (n - 55)
      else None)"

definition unescape :: "char \<Rightarrow> char option" where
  "unescape e =
     (if e = dquote then Some dquote
      else if e = backslash then Some backslash
      else if e = CHR ''/'' then Some (CHR ''/'')
      else if e = CHR ''b'' then Some (CHR 0x08)
      else if e = CHR ''f'' then Some (CHR 0x0C)
      else if e = CHR ''n'' then Some (CHR 0x0A)
      else if e = CHR ''r'' then Some (CHR 0x0D)
      else if e = CHR ''t'' then Some (CHR 0x09)
      else None)"

definition cons_char ::
    "char \<Rightarrow> json_fail + (string \<times> string) \<Rightarrow> json_fail + (string \<times> string)" where
  "cons_char c r = (case r of Inl f \<Rightarrow> Inl f | Inr (v, rest) \<Rightarrow> Inr (c # v, rest))"

text \<open>
  The characters of a string after its opening quote, up to the closing one. A \<open>\u\<close>
  escape needs four hexadecimal digits; its code unit is representable when it is below
  256.
\<close>

fun parse_chars :: "string \<Rightarrow> json_fail + (string \<times> string)" where
  "parse_chars [] = Inl SyntaxError"
| "parse_chars (c # cs) =
     (if c = dquote then Inr ([], cs)
      else if c = backslash then
        (case cs of
           [] \<Rightarrow> Inl SyntaxError
         | e # cs1 \<Rightarrow>
            if e = CHR ''u'' then
              (case cs1 of
                 h1 # h2 # h3 # h4 # cs2 \<Rightarrow>
                   (case (unhex h1, unhex h2, unhex h3, unhex h4) of
                      (Some a, Some b, Some x, Some y) \<Rightarrow>
                        if a = 0 \<and> b = 0 then cons_char (char_of (16 * x + y)) (parse_chars cs2)
                        else Inl OutsideModel
                    | _ \<Rightarrow> Inl SyntaxError)
               | _ \<Rightarrow> Inl SyntaxError)
            else
              (case unescape e of
                 None \<Rightarrow> Inl SyntaxError
               | Some x \<Rightarrow> cons_char x (parse_chars cs1)))
      else if (of_char c :: nat) < 32 then Inl SyntaxError
      else cons_char c (parse_chars cs))"

definition parse_string :: "string \<Rightarrow> json_fail + (string \<times> string)" where
  "parse_string cs =
     (case cs of
        [] \<Rightarrow> Inl SyntaxError
      | c # cs1 \<Rightarrow> if c = dquote then parse_chars cs1 else Inl SyntaxError)"

definition is_digit :: "char \<Rightarrow> bool" where
  "is_digit c \<longleftrightarrow> 48 \<le> (of_char c :: nat) \<and> (of_char c :: nat) \<le> 57"

definition digits_value :: "string \<Rightarrow> int" where
  "digits_value ds = foldl (\<lambda>a c. 10 * a + (of_char c - 48)) 0 ds"

text \<open>
  The fraction of a number: its digits (none when there is no point) and the rest. The
  exponent: its value (0 when there is none) and the rest. A point or an \<open>e\<close> that no
  digit follows is a syntax error.
\<close>

definition parse_frac :: "string \<Rightarrow> json_fail + (string \<times> string)" where
  "parse_frac cs =
     (case cs of
        [] \<Rightarrow> Inr ([], [])
      | c # r \<Rightarrow>
          if c = CHR ''.'' then
            (if takeWhile is_digit r = [] then Inl SyntaxError
             else Inr (takeWhile is_digit r, dropWhile is_digit r))
          else Inr ([], cs))"

definition parse_exp :: "string \<Rightarrow> json_fail + (int \<times> string)" where
  "parse_exp cs =
     (case cs of
        [] \<Rightarrow> Inr (0, [])
      | c # r \<Rightarrow>
          if c = CHR ''e'' \<or> c = CHR ''E'' then
            (let negative = (r \<noteq> [] \<and> hd r = CHR ''-'');
                 r1 = (if r \<noteq> [] \<and> (hd r = CHR ''-'' \<or> hd r = CHR ''+'') then tl r else r);
                 ds = takeWhile is_digit r1
             in if ds = [] then Inl SyntaxError
                else Inr ((if negative then - digits_value ds else digits_value ds),
                          dropWhile is_digit r1))
          else Inr (0, cs))"

text \<open>
  The value of the number with sign, decimal digits \<open>ds\<close> (those before and after the
  point) and decimal exponent \<open>e\<close> (the written exponent less the number of digits after
  the point), when it is an integer that a cell can hold (\<open>- 2^53\<close> up to \<open>2^53 - 1\<close>;
  such a number is read exactly). Minus zero is not a cell. With digits that are not all
  zero, an exponent above 16 makes the number too large, and an exponent of \<open>- length ds\<close>
  or less makes it a fraction.
\<close>

definition number_value :: "bool \<Rightarrow> string \<Rightarrow> int \<Rightarrow> int option" where
  "number_value negative ds e =
     (let m = digits_value ds in
      if m = 0 then (if negative then None else Some 0)
      else if e \<ge> 0 then
        (if e > 16 then None
         else
           let v = m * 10 ^ nat e in
           if negative then (if v \<le> 2 ^ 53 then Some (- v) else None)
           else (if v < 2 ^ 53 then Some v else None))
      else
        (if - e \<ge> int (length ds) then None
         else if \<not> (10 ^ nat (- e) dvd m) then None
         else
           let v = m div 10 ^ nat (- e) in
           if negative then (if v \<le> 2 ^ 53 then Some (- v) else None)
           else (if v < 2 ^ 53 then Some v else None)))"

definition parse_number :: "string \<Rightarrow> json_fail + (54 word \<times> string)" where
  "parse_number cs =
     (let negative = (cs \<noteq> [] \<and> hd cs = CHR ''-'');
          cs1 = (if negative then tl cs else cs);
          ip = takeWhile is_digit cs1
      in
      if ip = [] \<or> (length ip > 1 \<and> hd ip = CHR ''0'') then Inl SyntaxError
      else
        (case parse_frac (dropWhile is_digit cs1) of
           Inl f \<Rightarrow> Inl f
         | Inr (fp, cs2) \<Rightarrow>
            (case parse_exp cs2 of
               Inl f \<Rightarrow> Inl f
             | Inr (e, rest) \<Rightarrow>
                (case number_value negative (ip @ fp) (e - int (length fp)) of
                   None \<Rightarrow> Inl OutsideModel
                 | Some v \<Rightarrow> Inr (word_of_int v, rest)))))"

definition parse_cell :: "string \<Rightarrow> json_fail + (cell \<times> string)" where
  "parse_cell cs =
     (case cs of
        [] \<Rightarrow> Inl SyntaxError
      | c # _ \<Rightarrow>
          if c = dquote then
            (case parse_string cs of Inl f \<Rightarrow> Inl f | Inr (v, rest) \<Rightarrow> Inr (CStr v, rest))
          else if prefix ''true'' cs then Inr (CBool True, drop 4 cs)
          else if prefix ''false'' cs then Inr (CBool False, drop 5 cs)
          else if prefix ''null'' cs \<or> c = CHR ''['' \<or> c = CHR ''{'' then Inl OutsideModel
          else if c = CHR ''-'' \<or> is_digit c then
            (case parse_number cs of Inl f \<Rightarrow> Inl f | Inr (w, rest) \<Rightarrow> Inr (CNum w, rest))
          else Inl SyntaxError)"

text \<open>
  The members of an object in the order of the text, after the opening brace and white
  space, up to the closing brace.
\<close>

fun parse_members :: "nat \<Rightarrow> string \<Rightarrow> json_fail + (row \<times> string)" where
  "parse_members 0 cs = Inl OutsideModel"
| "parse_members (Suc n) cs =
     (case parse_string cs of
        Inl f \<Rightarrow> Inl f
      | Inr (k, cs1) \<Rightarrow>
         (case skip_ws cs1 of
            [] \<Rightarrow> Inl SyntaxError
          | c # cs2 \<Rightarrow>
             if c \<noteq> CHR '':'' then Inl SyntaxError
             else
               (case parse_cell (skip_ws cs2) of
                  Inl f \<Rightarrow> Inl f
                | Inr (v, cs3) \<Rightarrow>
                   (case skip_ws cs3 of
                      [] \<Rightarrow> Inl SyntaxError
                    | d # cs4 \<Rightarrow>
                       if d = CHR '','' then
                         (case parse_members n (skip_ws cs4) of
                            Inl f \<Rightarrow> Inl f
                          | Inr (r, rest) \<Rightarrow> Inr ((k, v) # r, rest))
                       else if d = CHR ''}'' then Inr ([(k, v)], cs4)
                       else Inl SyntaxError))))"

text \<open>
  The object that the members make: a later member with the key of an earlier one
  replaces its value in place; then the keys that are array indices (canonical decimal
  numerals up to \<open>2^32 - 2\<close>) come first, in ascending order, and the other keys follow in
  the order of their first occurrence. This is the order of \<open>Object.keys\<close>.
\<close>

fun upsert :: "string \<Rightarrow> cell \<Rightarrow> row \<Rightarrow> row" where
  "upsert k v [] = [(k, v)]"
| "upsert k v ((k', v') # r) = (if k = k' then (k, v) # r else (k', v') # upsert k v r)"

definition is_array_index :: "string \<Rightarrow> bool" where
  "is_array_index k \<longleftrightarrow>
     k \<noteq> [] \<and> list_all is_digit k \<and> (length k = 1 \<or> hd k \<noteq> CHR ''0'') \<and>
     length k \<le> 10 \<and> digits_value k \<le> 4294967294"

definition js_object :: "row \<Rightarrow> row" where
  "js_object members =
     (let r = foldl (\<lambda>acc (k, v). upsert k v acc) [] members in
      sort_key (\<lambda>(k, v). digits_value k) (filter (\<lambda>(k, v). is_array_index k) r) @
      filter (\<lambda>(k, v). \<not> is_array_index k) r)"

definition parse_object :: "nat \<Rightarrow> string \<Rightarrow> json_fail + (row \<times> string)" where
  "parse_object n cs =
     (case cs of
        [] \<Rightarrow> Inl SyntaxError
      | c # cs1 \<Rightarrow>
          if c \<noteq> CHR ''{'' then Inl OutsideModel
          else
            (case skip_ws cs1 of
               [] \<Rightarrow> Inl SyntaxError
             | d # cs2 \<Rightarrow>
                 if d = CHR ''}'' then Inr ([], cs2)
                 else
                   (case parse_members n (skip_ws cs1) of
                      Inl f \<Rightarrow> Inl f
                    | Inr (members, rest) \<Rightarrow> Inr (js_object members, rest))))"

fun parse_elements :: "nat \<Rightarrow> string \<Rightarrow> json_fail + (row list \<times> string)" where
  "parse_elements 0 cs = Inl OutsideModel"
| "parse_elements (Suc n) cs =
     (case parse_object (Suc n) cs of
        Inl f \<Rightarrow> Inl f
      | Inr (r, cs1) \<Rightarrow>
         (case skip_ws cs1 of
            [] \<Rightarrow> Inl SyntaxError
          | d # cs2 \<Rightarrow>
             if d = CHR '','' then
               (case parse_elements n (skip_ws cs2) of
                  Inl f \<Rightarrow> Inl f
                | Inr (rs, rest) \<Rightarrow> Inr (r # rs, rest))
             else if d = CHR '']'' then Inr ([r], cs2)
             else Inl SyntaxError))"

definition JSON_parse :: "string \<Rightarrow> json_fail + row list" where
  "JSON_parse text =
     (case skip_ws text of
        [] \<Rightarrow> Inl SyntaxError
      | c # cs1 \<Rightarrow>
          if c \<noteq> CHR ''['' then Inl OutsideModel
          else
            (case skip_ws cs1 of
               [] \<Rightarrow> Inl SyntaxError
             | d # cs2 \<Rightarrow>
                 if d = CHR '']'' then (if skip_ws cs2 = [] then Inr [] else Inl SyntaxError)
                 else
                   (case parse_elements (length text) (skip_ws cs1) of
                      Inl f \<Rightarrow> Inl f
                    | Inr (rows, rest) \<Rightarrow>
                        if skip_ws rest = [] then Inr rows else Inl SyntaxError)))"

subsection \<open>What is outstanding in which status\<close>

text \<open>
  The invariant of the machine: the interval is installed exactly in \<open>uploading\<close> (and
  its closure holds the current file); a timeout is outstanding only in \<open>processing\<close>,
  and at most one; a reader is outstanding only in \<open>uploading\<close> or \<open>preview\<close>, at most
  one, and then the table is still empty; the progress is a multiple of ten up to 100.
\<close>

definition pending_inv :: "state \<Rightarrow> bool" where
  "pending_inv s \<longleftrightarrow>
     (ticker s \<noteq> None \<longrightarrow> status s = Uploading \<and> file s = ticker s) \<and>
     (status s = Uploading \<longrightarrow> ticker s \<noteq> None) \<and>
     (delays s \<noteq> [] \<longrightarrow> status s = Processing) \<and>
     length (delays s) \<le> 1 \<and>
     (readers s \<noteq> [] \<longrightarrow> (status s = Uploading \<or> status s = Preview) \<and> jsonData s = []) \<and>
     length (readers s) \<le> 1 \<and>
     progress s \<le> 100 \<and> 10 dvd progress s"

subsection \<open>Inputs of the examples\<close>

text \<open>
  \<open>xlsm_file\<close>: a macro-enabled workbook as browsers declare it. \<open>bad_file\<close>: a text
  file. \<open>garbage_xlsx\<close>: three bytes that are no spreadsheet and no text, named
  \<open>garbage.xlsx\<close>. \<open>corrupt_xlsx\<close>: the signature of a ZIP archive with nothing behind
  it, named \<open>broken.xlsx\<close>. \<open>empty_xlsx\<close>: a file of no bytes named \<open>empty.xlsx\<close>.
  \<open>csv_file\<close>: the bytes of \<open>a,b\<close>, a line feed and \<open>1,2\<close>, named \<open>ab.csv\<close>.
\<close>

definition xlsm_file :: File where
  "xlsm_file = \<lparr>name = ''macro.xlsm'',
                 ftype = ''application/vnd.ms-excel.sheet.macroEnabled.12'', content = []\<rparr>"

definition bad_file :: File where
  "bad_file = \<lparr>name = ''notes.txt'', ftype = ''text/plain'', content = [104, 105]\<rparr>"

definition garbage_xlsx :: File where
  "garbage_xlsx = \<lparr>name = ''garbage.xlsx'', ftype = [], content = [0, 1, 2]\<rparr>"

definition corrupt_bytes :: "byte list" where
  "corrupt_bytes = [80, 75, 3, 4]"

definition corrupt_xlsx :: File where
  "corrupt_xlsx = \<lparr>name = ''broken.xlsx'', ftype = [], content = corrupt_bytes\<rparr>"

definition empty_xlsx :: File where
  "empty_xlsx = \<lparr>name = ''empty.xlsx'', ftype = [], content = []\<rparr>"

definition csv_bytes :: "byte list" where
  "csv_bytes = [97, 44, 98, 10, 49, 44, 50]"

definition csv_file :: File where
  "csv_file = \<lparr>name = ''ab.csv'', ftype = ''text/csv'', content = csv_bytes\<rparr>"

text \<open>
  The record of the CSV as the library types it by default (numeric text becomes a
  number), and as the strings of the text.
\<close>

definition rows_ab :: "row list" where
  "rows_ab = [[(''a'', CNum 1), (''b'', CNum 2)]]"

definition rows_ab_text :: "row list" where
  "rows_ab_text = [[(''a'', CStr ''1''), (''b'', CStr ''2'')]]"

text \<open>
  A stand-in for the library in the examples; its worksheets are their rows. On the
  example buffers it answers as the library does: it throws on \<open>corrupt_bytes\<close> (an
  archive without entries is an unsupported ZIP file), it reads \<open>csv_bytes\<close> as one sheet
  with the record of \<open>rows_ab\<close>, and it reads the empty buffer and the three bytes of
  \<open>garbage_xlsx\<close> as text that makes one sheet without data rows. It gives this last
  answer on every other buffer too, which is not what the library does on a real
  workbook: no statement depends on that.
\<close>

definition stub_xlsx :: "row list XLSX" where
  "stub_xlsx =
     \<lparr>xlsx_read = (\<lambda>d.
        if d = [] then
          Inr \<lparr>SheetNames = [''Sheet1''],
               Sheets = (\<lambda>n. if n = ''Sheet1'' then Some [] else None)\<rparr>
        else if d = csv_bytes then
          Inr \<lparr>SheetNames = [''Sheet1''],
               Sheets = (\<lambda>n. if n = ''Sheet1'' then Some rows_ab else None)\<rparr>
        else if d = corrupt_bytes then Inl (JsError ''Unsupported ZIP file'')
        else
          Inr \<lparr>SheetNames = [''Sheet1''],
               Sheets = (\<lambda>n. if n = ''Sheet1'' then Some [] else None)\<rparr>),
      xlsx_sheet_to_json = (\<lambda>w. case w of None \<Rightarrow> Inr [] | Some rows \<Rightarrow> Inr rows)\<rparr>"


definition uploading_corrupt :: state where
  "uploading_corrupt = step stub_xlsx ''12:00:00'' (FileChosen (Some corrupt_xlsx)) init"

definition uploading_garbage :: state where
  "uploading_garbage = step stub_xlsx ''12:00:00'' (FileChosen (Some garbage_xlsx)) init"

definition preview_unloaded :: state where
  "preview_unloaded =
     run stub_xlsx ''12:00:00'' (FileChosen (Some csv_file) # replicate 11 TickerFired) init"

text \<open>\<open>uploading_csv n\<close>: \<open>csv_file\<close> was chosen and the ticker has fired \<open>n\<close> times.\<close>

definition uploading_csv :: "nat \<Rightarrow> state" where
  "uploading_csv n =
     run stub_xlsx ''12:00:00'' (FileChosen (Some csv_file) # replicate n TickerFired) init"

text \<open>
  \<open>processing_csv\<close>: \<open>csv_file\<close> was chosen, read and uploaded, and the user has
  confirmed. \<open>completed_csv\<close>: the timeout has fired and the download succeeded.
\<close>

definition processing_csv :: state where
  "processing_csv =
     run stub_xlsx ''12:00:00''
       ([FileChosen (Some csv_file), ReaderLoaded 0] @ replicate 11 TickerFired @ [ConfirmClicked])
       init"

definition completed_csv :: state where
  "completed_csv = step stub_xlsx ''12:00:03'' (DelayElapsed None) processing_csv"

section \<open>Properties\<close>

subsection \<open>The invariant holds in every reachable state\<close>

lemma inv_init: "pending_inv init"
  by (simp add: pending_inv_def init_def)

lemma remove_nth_single: "length xs \<le> 1 \<Longrightarrow> i < length xs \<Longrightarrow> remove_nth i xs = []"
  by (cases xs) (auto simp: remove_nth_def)

lemma addLog_fields [simp]:
  "status (addLog now m t s) = status s" "file (addLog now m t s) = file s"
  "progress (addLog now m t s) = progress s" "isDragging (addLog now m t s) = isDragging s"
  "sheetHeaders (addLog now m t s) = sheetHeaders s" "jsonData (addLog now m t s) = jsonData s"
  "toasts (addLog now m t s) = toasts s" "readers (addLog now m t s) = readers s"
  "ticker (addLog now m t s) = ticker s" "delays (addLog now m t s) = delays s"
  "downloads (addLog now m t s) = downloads s"
  "logs (addLog now m t s) = \<lparr>timestamp = now, message = m, type = t\<rparr> # logs s"
  by (simp_all add: addLog_def)

lemma toast_fields [simp]:
  "status (toast t s) = status s" "file (toast t s) = file s"
  "progress (toast t s) = progress s" "isDragging (toast t s) = isDragging s"
  "sheetHeaders (toast t s) = sheetHeaders s" "jsonData (toast t s) = jsonData s"
  "toasts (toast t s) = toasts s @ [t]" "readers (toast t s) = readers s"
  "ticker (toast t s) = ticker s" "delays (toast t s) = delays s"
  "downloads (toast t s) = downloads s" "logs (toast t s) = logs s"
  by (simp_all add: toast_def)

lemma useEffect_fields [simp]:
  "status (useEffect now p s) = status s" "file (useEffect now p s) = file s"
  "progress (useEffect now p s) = progress s" "isDragging (useEffect now p s) = isDragging s"
  "sheetHeaders (useEffect now p s) = sheetHeaders s" "jsonData (useEffect now p s) = jsonData s"
  "toasts (useEffect now p s) = toasts s" "readers (useEffect now p s) = readers s"
  "delays (useEffect now p s) = delays s" "downloads (useEffect now p s) = downloads s"
  by (simp_all add: useEffect_def Let_def split: option.split)

lemma useEffect_ticker:
  "ticker (useEffect now p s) =
     (if status p = status s \<and> file p = file s then ticker s
      else if status s = Uploading then file s else None)"
  by (simp add: useEffect_def Let_def split: option.split)

lemma useEffect_logs:
  "logs (useEffect now p s) =
     (if (status p = status s \<and> file p = file s) \<or> status s \<noteq> Uploading \<or> file s = None then logs s
      else \<lparr>timestamp = now, message = msg_upload_start, type = info\<rparr> # logs s)"
  by (simp add: useEffect_def Let_def split: option.split)
lemma inv_file: "pending_inv s \<Longrightarrow> pending_inv (step X now (FileChosen f) s)"
proof (cases f)
  case None
  assume "pending_inv s"
  then show ?thesis using None by (simp add: step_def handleFileSelect_def useEffect_def)
next
  case (Some g)
  assume i: "pending_inv s"
  show ?thesis
  proof (cases "dropzone_rendered s")
    case False
    then show ?thesis using i by (simp add: step_def)
  next
    case True
    then have st: "status s = Idle \<or> status s = Error" by (simp add: dropzone_rendered_def)
    with i have pend: "ticker s = None" "delays s = []" "readers s = []"
      "progress s \<le> 100" "10 dvd progress s"
      by (auto simp: pending_inv_def)
    show ?thesis
    proof (cases "isAccepted g")
      case True
      with \<open>dropzone_rendered s\<close> Some st pend show ?thesis
        by (auto simp add: pending_inv_def step_def handleFileSelect_def useEffect_ticker)
    next
      case False
      with \<open>dropzone_rendered s\<close> Some st pend show ?thesis
        by (auto simp add: pending_inv_def step_def handleFileSelect_def useEffect_ticker)
    qed
  qed
qed
lemma enabled_reset: "enabled ResetClicked s \<longleftrightarrow> status s = Completed \<or> status s = Error"
  by (cases "status s") (simp_all add: renderFooter_def)

lemma enabled_confirm: "enabled ConfirmClicked s \<longleftrightarrow> status s = Preview \<and> jsonData s \<noteq> []"
  by (cases "status s") (simp_all add: renderFooter_def)

lemma inv_drop: "pending_inv s \<Longrightarrow> pending_inv (step X now (Drop f) s)"
proof (cases f)
  case None
  assume "pending_inv s"
  then show ?thesis using None
    by (simp add: step_def handleDrop_def handleFileSelect_def pending_inv_def useEffect_ticker)
next
  case (Some g)
  assume i: "pending_inv s"
  show ?thesis
  proof (cases "dropzone_rendered s")
    case False
    then show ?thesis using i by (simp add: step_def)
  next
    case True
    then have st: "status s = Idle \<or> status s = Error" by (simp add: dropzone_rendered_def)
    with i have pend: "ticker s = None" "delays s = []" "readers s = []"
      "progress s \<le> 100" "10 dvd progress s"
      by (auto simp: pending_inv_def)
    show ?thesis
    proof (cases "isAccepted g")
      case True
      with \<open>dropzone_rendered s\<close> Some st pend show ?thesis
        by (auto simp add: pending_inv_def step_def handleDrop_def handleFileSelect_def useEffect_ticker)
    next
      case False
      with \<open>dropzone_rendered s\<close> Some st pend show ?thesis
        by (auto simp add: pending_inv_def step_def handleDrop_def handleFileSelect_def useEffect_ticker)
    qed
  qed
qed

lemma inv_drag:
  "pending_inv s \<Longrightarrow> pending_inv (step X now DragEnter s) \<and> pending_inv (step X now DragLeave s) \<and> pending_inv (step X now DragOver s)"
  by (simp add: pending_inv_def step_def handleDragEnter_def handleDragLeave_def
      handleDragOver_def useEffect_ticker)

lemma inv_reset: "pending_inv s \<Longrightarrow> pending_inv (step X now ResetClicked s)"
proof (cases "enabled ResetClicked s")
  case False
  assume "pending_inv s"
  with False show ?thesis by (simp add: step_def)
next
  case True
  assume i: "pending_inv s"
  from True enabled_reset [of s] have st: "status s = Completed \<or> status s = Error" by blast
  with i have pend: "ticker s = None" "delays s = []" "readers s = []"
    by (auto simp: pending_inv_def)
  from True have "step X now ResetClicked s = useEffect now s (handleReset s)"
    by (simp only: step_def handle.simps if_True)
  with st pend show ?thesis
    by (auto simp add: pending_inv_def handleReset_def useEffect_ticker)
qed

lemma inv_confirm: "pending_inv s \<Longrightarrow> pending_inv (step X now ConfirmClicked s)"
proof (cases "enabled ConfirmClicked s")
  case False
  assume "pending_inv s"
  with False show ?thesis by (simp add: step_def)
next
  case True
  assume i: "pending_inv s"
  from True enabled_confirm [of s] have st: "status s = Preview" "jsonData s \<noteq> []" by blast+
  with i have pend: "ticker s = None" "delays s = []" "readers s = []"
    "progress s \<le> 100" "10 dvd progress s"
    by (auto simp: pending_inv_def)
  from True have "step X now ConfirmClicked s = useEffect now s (handleProcess now s)"
    by (simp only: step_def handle.simps if_True)
  with st pend show ?thesis
    by (simp add: pending_inv_def handleProcess_def useEffect_ticker)
qed

lemma inv_tick: "pending_inv s \<Longrightarrow> pending_inv (step X now TickerFired s)"
proof (cases "ticker s")
  case None
  assume "pending_inv s"
  with None show ?thesis by (simp add: step_def)
next
  case (Some f)
  assume i: "pending_inv s"
  with Some have st: "status s = Uploading" "file s = Some f" "delays s = []"
    "length (readers s) \<le> 1" "readers s \<noteq> [] \<longrightarrow> jsonData s = []"
    "progress s \<le> 100" "10 dvd progress s"
    by (auto simp: pending_inv_def)
  show ?thesis
  proof (cases "progress s \<ge> 100")
    case True
    with Some st show ?thesis
      by (simp add: pending_inv_def step_def ticker_fire_def useEffect_ticker)
  next
    case False
    from st have "progress s + 10 \<le> 100 \<or> progress s \<ge> 100" by presburger
    with False Some st show ?thesis
      by (simp add: pending_inv_def step_def ticker_fire_def useEffect_ticker)
  qed
qed
lemma reader_onload_cases:
  "reader_onload X now data s = onload_catch now s \<or>
   reader_onload X now data s = onload_empty now s \<or>
   (\<exists>rs. rs \<noteq> [] \<and> reader_onload X now data s =
        addLog now msg_parsed info (s\<lparr>sheetHeaders := Object_keys (hd rs), jsonData := rs\<rparr>))"
  by (auto simp add: reader_onload_def onload_try_def split: option.split sum.split)

lemma inv_delay: "pending_inv s \<Longrightarrow> pending_inv (step X now (DelayElapsed thrown) s)"
proof (cases "delays s")
  case Nil
  assume "pending_inv s"
  with Nil show ?thesis by (simp add: step_def)
next
  case (Cons d ds)
  assume i: "pending_inv s"
  with Cons have st: "status s = Processing" "ds = []" "ticker s = None" "readers s = []"
    "progress s \<le> 100" "10 dvd progress s"
    by (auto simp: pending_inv_def)
  with Cons show ?thesis
    by (cases thrown)
       (simp_all add: pending_inv_def step_def handleProcess_resume_def simulateBackendProcessing_def
          useEffect_ticker Let_def)
qed
lemma inv_failed: "pending_inv s \<Longrightarrow> pending_inv (step X now (ReaderFailed i) s)"
proof (cases "i < length (readers s)")
  case False
  assume "pending_inv s"
  with False show ?thesis by (simp add: step_def)
next
  case True
  assume i: "pending_inv s"
  with True have st: "remove_nth i (readers s) = []" "delays s = []"
    "status s = Uploading \<or> status s = Preview"
    "progress s \<le> 100" "10 dvd progress s"
    by (auto simp: pending_inv_def remove_nth_single)
  from True st(1) have eq: "step X now (ReaderFailed i) s = useEffect now s (reader_onerror now (s\<lparr>readers := []\<rparr>))"
    by (simp add: step_def)
  from st show ?thesis unfolding eq
    by (auto simp add: pending_inv_def reader_onerror_def useEffect_ticker)
qed

lemma inv_tk: "pending_inv s \<Longrightarrow> (status s = Uploading \<and> ticker s \<noteq> None \<and> file s = ticker s) \<or>
                   (status s \<noteq> Uploading \<and> ticker s = None)"
  unfolding pending_inv_def by blast

lemma inv_rd: "pending_inv s \<Longrightarrow> i < length (readers s) \<Longrightarrow>
   remove_nth i (readers s) = [] \<and> delays s = [] \<and> jsonData s = [] \<and>
   (status s = Uploading \<or> status s = Preview)"
proof -
  assume a: "pending_inv s" "i < length (readers s)"
  then have r: "readers s \<noteq> []" "length (readers s) \<le> 1" unfolding pending_inv_def by auto
  from r a(2) have 1: "remove_nth i (readers s) = []" by (simp add: remove_nth_single)
  from a(1) r(1) have 2: "status s = Uploading \<or> status s = Preview" "jsonData s = []"
    unfolding pending_inv_def by blast+
  from a(1) 2(1) have 3: "delays s = []" unfolding pending_inv_def by auto
  from 1 2 3 show ?thesis by blast
qed

lemma inv_pg: "pending_inv s \<Longrightarrow> progress s \<le> 100 \<and> 10 dvd progress s"
  unfolding pending_inv_def by blast
lemma inv_loaded: "pending_inv s \<Longrightarrow> pending_inv (step X now (ReaderLoaded i) s)"
proof (cases "i < length (readers s)")
  case False
  assume "pending_inv s"
  with False show ?thesis by (simp add: step_def)
next
  case True
  assume i: "pending_inv s"
  from inv_rd [OF i True] have st: "remove_nth i (readers s) = []" "delays s = []"
    and st2: "status s = Uploading \<or> status s = Preview" by blast+
  from inv_pg [OF i] have pg: "progress s \<le> 100" "10 dvd progress s" by blast+
  note tk = inv_tk [OF i]
  let ?s0 = "s\<lparr>readers := []\<rparr>"
  let ?d = "Some (content (readers s ! i))"
  from True st(1) have eq: "step X now (ReaderLoaded i) s = useEffect now s (reader_onload X now ?d ?s0)"
    by (simp add: step_def)
  from reader_onload_cases [of X now ?d ?s0] show ?thesis
  proof (elim disjE exE conjE)
    assume a: "reader_onload X now ?d ?s0 = onload_catch now ?s0"
    from st st2 pg show ?thesis unfolding eq a
      by (auto simp add: pending_inv_def onload_catch_def useEffect_ticker)
  next
    assume a: "reader_onload X now ?d ?s0 = onload_empty now ?s0"
    from st st2 pg show ?thesis unfolding eq a
      by (auto simp add: pending_inv_def onload_empty_def useEffect_ticker)
  next
    fix rs :: "row list"
    assume a: "reader_onload X now ?d ?s0 =
        addLog now msg_parsed info (?s0\<lparr>sheetHeaders := Object_keys (hd rs), jsonData := rs\<rparr>)"
    from tk show ?thesis
    proof (elim disjE conjE)
      assume "status s = Uploading" "ticker s \<noteq> None" "file s = ticker s"
      with st pg show ?thesis unfolding eq a by (simp add: pending_inv_def useEffect_ticker)
    next
      assume "status s \<noteq> Uploading" "ticker s = None"
      with st pg show ?thesis unfolding eq a by (simp add: pending_inv_def useEffect_ticker)
    qed
  qed
qed
lemma inv_step: "pending_inv s \<Longrightarrow> pending_inv (step X now e s)"
  by (cases e)
     (simp_all only: inv_file inv_drop inv_drag inv_reset inv_confirm inv_tick inv_delay
        inv_failed inv_loaded)

lemma reachable_inv: "reachable X s \<Longrightarrow> pending_inv s"
  by (induction rule: reachable.induct) (simp_all only: inv_init inv_step)

lemma onload_try_throws:
  assumes "xlsx_read X d = Inl e \<or>
           (\<exists>wb. xlsx_read X d = Inr wb \<and> xlsx_sheet_to_json X (first_worksheet wb) = Inl e)"
  shows "onload_try X now (Some d) s = Inl e"
  using assms by (auto simp add: onload_try_def)

lemma step_reader_loaded:
  "i < length (readers s) \<Longrightarrow>
   step X now (ReaderLoaded i) s =
     useEffect now s (reader_onload X now (Some (content (readers s ! i)))
                        (s\<lparr>readers := remove_nth i (readers s)\<rparr>))"
  by (simp add: step_def)

lemma step_file_accepted:
  assumes "dropzone_rendered s" and "isAccepted f"
  shows "status (step X now (FileChosen (Some f)) s) = Uploading"
    and "file (step X now (FileChosen (Some f)) s) = Some f"
    and "progress (step X now (FileChosen (Some f)) s) = 0"
    and "sheetHeaders (step X now (FileChosen (Some f)) s) = []"
    and "jsonData (step X now (FileChosen (Some f)) s) = []"
    and "readers (step X now (FileChosen (Some f)) s) = readers s @ [f]"
    and "ticker (step X now (FileChosen (Some f)) s) = Some f"
    and "delays (step X now (FileChosen (Some f)) s) = delays s"
    and "toasts (step X now (FileChosen (Some f)) s) = toasts s"
    and "isDragging (step X now (FileChosen (Some f)) s) = isDragging s"
    and "logs (step X now (FileChosen (Some f)) s) =
           \<lparr>timestamp = now, message = msg_upload_start, type = info\<rparr> #
           \<lparr>timestamp = now, message = msg_selected (name f), type = info\<rparr> # logs s"
  using assms
  by (auto simp add: step_def handleFileSelect_def dropzone_rendered_def useEffect_ticker
      useEffect_logs)

lemma empty_xlsx_accepted: "isAccepted empty_xlsx"
  by code_simp

lemma onload_try_empty:
  assumes "xlsx_read X d = Inr wb"
      and "xlsx_sheet_to_json X (first_worksheet wb) = Inr rows"
      and "rows = [] \<or> Object_keys (hd rows) = []"
  shows "reader_onload X now (Some d) s = onload_empty now s"
  using assms by (auto simp add: reader_onload_def onload_try_def)

subsection \<open>The steps, event by event\<close>

lemma step_disabled: "\<not> enabled e s \<Longrightarrow> step X now e s = s"
  by (simp add: step_def)

lemma step_file_absent: "step X now (FileChosen None) s = s"
  by (simp add: step_def handleFileSelect_def useEffect_def)

lemma step_file_rejected:
  assumes "dropzone_rendered s" and "\<not> isAccepted f"
  shows "status (step X now (FileChosen (Some f)) s) = Error"
    and "file (step X now (FileChosen (Some f)) s) = file s"
    and "progress (step X now (FileChosen (Some f)) s) = progress s"
    and "sheetHeaders (step X now (FileChosen (Some f)) s) = sheetHeaders s"
    and "jsonData (step X now (FileChosen (Some f)) s) = jsonData s"
    and "readers (step X now (FileChosen (Some f)) s) = readers s"
    and "delays (step X now (FileChosen (Some f)) s) = delays s"
    and "logs (step X now (FileChosen (Some f)) s) =
           \<lparr>timestamp = now, message = msg_invalid_type (name f), type = error\<rparr> # logs s"
  using assms by (simp_all add: step_def handleFileSelect_def useEffect_logs)

lemma step_drop_absent:
  "status (step X now (Drop None) s) = status s"
  "progress (step X now (Drop None) s) = progress s"
  "logs (step X now (Drop None) s) = logs s"
  by (simp_all add: step_def handleDrop_def handleFileSelect_def useEffect_logs)

lemma step_drop_accepted:
  assumes "dropzone_rendered s" and "isAccepted f"
  shows "status (step X now (Drop (Some f)) s) = Uploading"
    and "file (step X now (Drop (Some f)) s) = Some f"
    and "progress (step X now (Drop (Some f)) s) = 0"
    and "sheetHeaders (step X now (Drop (Some f)) s) = []"
    and "jsonData (step X now (Drop (Some f)) s) = []"
    and "readers (step X now (Drop (Some f)) s) = readers s @ [f]"
    and "logs (step X now (Drop (Some f)) s) =
           \<lparr>timestamp = now, message = msg_upload_start, type = info\<rparr> #
           \<lparr>timestamp = now, message = msg_selected (name f), type = info\<rparr> # logs s"
  using assms
  by (auto simp add: step_def handleDrop_def handleFileSelect_def dropzone_rendered_def
      useEffect_logs)

lemma step_drop_rejected:
  assumes "dropzone_rendered s" and "\<not> isAccepted f"
  shows "status (step X now (Drop (Some f)) s) = Error"
    and "progress (step X now (Drop (Some f)) s) = progress s"
  using assms by (simp_all add: step_def handleDrop_def handleFileSelect_def)

lemma step_drag:
  "status (step X now DragEnter s) = status s" "progress (step X now DragEnter s) = progress s"
  "status (step X now DragLeave s) = status s" "progress (step X now DragLeave s) = progress s"
  "status (step X now DragOver s) = status s" "progress (step X now DragOver s) = progress s"
  by (simp_all add: step_def handleDragEnter_def handleDragLeave_def handleDragOver_def)

lemma step_reader_loaded_status:
  "status (step X now (ReaderLoaded i) s) = status s \<or>
   status (step X now (ReaderLoaded i) s) = Error"
proof (cases "i < length (readers s)")
  case False
  then show ?thesis by (simp add: step_def)
next
  case True
  let ?s0 = "s\<lparr>readers := remove_nth i (readers s)\<rparr>"
  let ?d = "Some (content (readers s ! i))"
  from reader_onload_cases [of X now ?d ?s0] show ?thesis
    unfolding step_reader_loaded [OF True]
    by (auto simp add: onload_catch_def onload_empty_def)
qed

lemma step_reader_loaded_progress:
  "progress (step X now (ReaderLoaded i) s) = progress s"
proof (cases "i < length (readers s)")
  case False
  then show ?thesis by (simp add: step_def)
next
  case True
  let ?s0 = "s\<lparr>readers := remove_nth i (readers s)\<rparr>"
  let ?d = "Some (content (readers s ! i))"
  from reader_onload_cases [of X now ?d ?s0] show ?thesis
    unfolding step_reader_loaded [OF True]
    by (auto simp add: onload_catch_def onload_empty_def)
qed

lemma step_reader_failed:
  "i < length (readers s) \<Longrightarrow> status (step X now (ReaderFailed i) s) = Error"
  "progress (step X now (ReaderFailed i) s) = progress s"
  by (simp_all add: step_def reader_onerror_def)

lemma step_tick_below:
  assumes "ticker s = Some f" and "progress s < 100"
  shows "status (step X now TickerFired s) = status s"
    and "progress (step X now TickerFired s) = progress s + 10"
    and "ticker (step X now TickerFired s) = Some f"
    and "logs (step X now TickerFired s) = logs s"
  using assms by (simp_all add: step_def ticker_fire_def useEffect_ticker useEffect_logs)

lemma step_tick_full:
  assumes "ticker s = Some f" and "progress s \<ge> 100"
  shows "status (step X now TickerFired s) = Preview"
    and "progress (step X now TickerFired s) = 100"
    and "ticker (step X now TickerFired s) = None"
  using assms by (simp_all add: step_def ticker_fire_def useEffect_ticker)

lemma step_confirm:
  assumes "status s = Preview" and "jsonData s \<noteq> []"
  shows "status (step X now ConfirmClicked s) = Processing"
    and "progress (step X now ConfirmClicked s) = progress s"
    and "delays (step X now ConfirmClicked s) = delays s @ [jsonData s]"
  using assms by (simp_all add: step_def renderFooter_def handleProcess_def)

lemma step_delay:
  assumes "delays s = d # ds"
  shows "status (step X now (DelayElapsed None) s) = Completed"
    and "status (step X now (DelayElapsed (Some x)) s) = Error"
    and "progress (step X now (DelayElapsed thrown) s) = progress s"
    and "delays (step X now (DelayElapsed thrown) s) = ds"
    and "downloads (step X now (DelayElapsed None) s) =
           downloads s @ [(''processed_data.json'', JSON_stringify d)]"
  using assms
  by (cases thrown;
      simp add: step_def handleProcess_resume_def simulateBackendProcessing_def Let_def)+

lemma step_reset:
  assumes "status s = Completed \<or> status s = Error"
  shows "status (step X now ResetClicked s) = Idle"
    and "file (step X now ResetClicked s) = None"
    and "progress (step X now ResetClicked s) = 0"
    and "logs (step X now ResetClicked s) = []"
    and "sheetHeaders (step X now ResetClicked s) = []"
    and "jsonData (step X now ResetClicked s) = []"
    and "isDragging (step X now ResetClicked s) = isDragging s"
    and "toasts (step X now ResetClicked s) = toasts s"
    and "readers (step X now ResetClicked s) = readers s"
    and "delays (step X now ResetClicked s) = delays s"
    and "downloads (step X now ResetClicked s) = downloads s"
  using assms enabled_reset [of s]
  by (simp_all add: step_def handleReset_def useEffect_logs del: enabled.simps)

lemma reachable_run: "reachable X s \<Longrightarrow> reachable X (run X now es s)"
  by (induction es arbitrary: s) (simp_all add: reachable_step)

subsection \<open>Where the library enters a run\<close>

text \<open>Only the delivery of a buffer consults the library.\<close>

lemma step_library_free:
  "(\<forall>i. e \<noteq> ReaderLoaded i) \<Longrightarrow> step X now e s = step Y now e s"
  by (cases e) (simp_all add: step_def)

lemma run_library_free:
  "(\<forall>e \<in> set es. \<forall>i. e \<noteq> ReaderLoaded i) \<Longrightarrow> run X now es s = run Y now es s"
proof (induction es arbitrary: s)
  case Nil
  show ?case by simp
next
  case (Cons e es)
  then have "step X now e s = step Y now e s" by (simp add: step_library_free)
  with Cons show ?case by simp
qed

lemma reader_onload_same_rows:
  assumes "xlsx_read X d = Inr wb" and "xlsx_sheet_to_json X (first_worksheet wb) = Inr rows"
      and "xlsx_read Y d = Inr wb'" and "xlsx_sheet_to_json Y (first_worksheet wb') = Inr rows"
  shows "reader_onload X now (Some d) s = reader_onload Y now (Some d) s"
  using assms by (simp add: reader_onload_def onload_try_def)

subsection \<open>What clears the ticker and what removes a timeout\<close>





lemma ticks11: "replicate 11 TickerFired = [TickerFired, TickerFired, TickerFired, TickerFired,
   TickerFired, TickerFired, TickerFired, TickerFired, TickerFired, TickerFired, TickerFired]"
  by code_simp

lemma reader_onload_rows:
  assumes "xlsx_read X d = Inr wb"
      and "xlsx_sheet_to_json X (first_worksheet wb) = Inr (r # rs)"
      and "Object_keys r \<noteq> []"
  shows "reader_onload X now (Some d) s =
           addLog now msg_parsed info (s\<lparr>sheetHeaders := Object_keys r, jsonData := r # rs\<rparr>)"
  using assms by (simp add: reader_onload_def onload_try_def)

lemma run_to_completed:
  assumes "xlsx_read X (content f) = Inr wb"
      and "xlsx_sheet_to_json X (first_worksheet wb) = Inr (r # rs)"
      and "Object_keys r \<noteq> []"
      and "isAccepted f"
  shows "status (run X now ([FileChosen (Some f), ReaderLoaded 0] @ replicate 11 TickerFired @
            [ConfirmClicked, DelayElapsed None]) init) = Completed"
    and "file (run X now ([FileChosen (Some f), ReaderLoaded 0] @ replicate 11 TickerFired @
            [ConfirmClicked, DelayElapsed None]) init) = Some f"
    and "sheetHeaders (run X now ([FileChosen (Some f), ReaderLoaded 0] @ replicate 11 TickerFired @
            [ConfirmClicked, DelayElapsed None]) init) = Object_keys r"
    and "jsonData (run X now ([FileChosen (Some f), ReaderLoaded 0] @ replicate 11 TickerFired @
            [ConfirmClicked, DelayElapsed None]) init) = r # rs"
    and "downloads (run X now ([FileChosen (Some f), ReaderLoaded 0] @ replicate 11 TickerFired @
            [ConfirmClicked, DelayElapsed None]) init) =
           [(''processed_data.json'', JSON_stringify (r # rs))]"
  unfolding ticks11
  using assms(3,4)
  by (simp_all add: step_def dropzone_rendered_def init_def handleFileSelect_def useEffect_def
      Let_def remove_nth_def reader_onload_rows [OF assms(1,2,3)] ticker_fire_def renderFooter_def
      handleProcess_def handleProcess_resume_def simulateBackendProcessing_def addLog_def)

section \<open>The claims\<close>

text \<open>
  C10. Submitting an absent file is a no-op: \<open>handleFileSelect\<close> returns the state it
  was given, so a picker event without a file changes nothing, and a drop without a file
  changes nothing but the drag-hover flag that \<open>handleDrop\<close> clears before the call:
  status, file, table, progress and log stay as they were and nothing is started.
\<close>

theorem absent_file_is_noop:
  "handleFileSelect now None s = s \<and>
   step X now (FileChosen None) s = s \<and>
   status (step X now (Drop None) s) = status s \<and>
   file (step X now (Drop None) s) = file s \<and>
   sheetHeaders (step X now (Drop None) s) = sheetHeaders s \<and>
   jsonData (step X now (Drop None) s) = jsonData s \<and>
   progress (step X now (Drop None) s) = progress s \<and>
   logs (step X now (Drop None) s) = logs s \<and>
   readers (step X now (Drop None) s) = readers s \<and>
   ticker (step X now (Drop None) s) = ticker s \<and>
   delays (step X now (Drop None) s) = delays s"
  by (simp add: handleFileSelect_def step_def handleDrop_def useEffect_ticker useEffect_logs
      useEffect_def)

text \<open>
  C8. In \<open>preview\<close> with an empty parse result the confirm button is rendered disabled,
  so the click is not delivered and the machine stays as it is; and \<open>handleProcess\<close>
  called all the same only shows a toast: status, file, table, progress and log are
  unchanged and no timeout is started.
\<close>

theorem confirm_is_noop_without_data:
  assumes "status s = Preview" and "jsonData s = []"
  shows "renderFooter s = Some (ConfirmButton True) \<and>
         \<not> enabled ConfirmClicked s \<and>
         step X now ConfirmClicked s = s \<and>
         handleProcess now s = s\<lparr>toasts := toasts s @ [toast_no_data]\<rparr> \<and>
         status (handleProcess now s) = Preview \<and>
         file (handleProcess now s) = file s \<and>
         sheetHeaders (handleProcess now s) = sheetHeaders s \<and>
         jsonData (handleProcess now s) = [] \<and>
         progress (handleProcess now s) = progress s \<and>
         logs (handleProcess now s) = logs s \<and>
         delays (handleProcess now s) = delays s"
  using assms by (simp add: renderFooter_def handleProcess_def toast_def step_def)

theorem confirm_is_noop_without_data_witness:
  "status preview_unloaded = Preview \<and> jsonData preview_unloaded = [] \<and>
   renderFooter preview_unloaded = Some (ConfirmButton True) \<and>
   step stub_xlsx ''12:00:01'' ConfirmClicked preview_unloaded = preview_unloaded \<and>
   status (handleProcess ''12:00:01'' preview_unloaded) = Preview \<and>
   delays (handleProcess ''12:00:01'' preview_unloaded) = delays preview_unloaded"
proof -
  have h1: "status preview_unloaded = Preview" by code_simp
  have h2: "jsonData preview_unloaded = []" by code_simp
  from confirm_is_noop_without_data [OF h1 h2, of stub_xlsx "''12:00:01''"] h1 h2
  show ?thesis by blast
qed

text \<open>
  C2, as the code has it. The test on the declared type is \<open>startsWith\<close>, not membership
  in the allow-list: \<open>xlsm_file\<close> has none of the three extensions and a type that is not
  in the list, yet it is accepted, the status becomes \<open>uploading\<close> and a reader is started
  on it.
\<close>

theorem reject_by_membership_counterexample:
  "\<not> suffix ''.xlsx'' (name xlsm_file) \<and> \<not> suffix ''.xls'' (name xlsm_file) \<and>
   \<not> suffix ''.csv'' (name xlsm_file) \<and>
   ftype xlsm_file \<notin> set ACCEPTED_FILE_TYPES \<and>
   isAccepted xlsm_file \<and>
   status (step stub_xlsx ''12:00:00'' (FileChosen (Some xlsm_file)) init) = Uploading \<and>
   readers (step stub_xlsx ''12:00:00'' (FileChosen (Some xlsm_file)) init) = [xlsm_file]"
  by code_simp

text \<open>
  C2, amended. A file whose name ends in none of \<open>.xlsx\<close>, \<open>.xls\<close>, \<open>.csv\<close> and whose
  declared type begins with no entry of the allow-list is rejected: \<open>handleFileSelect\<close>
  returns (it does not throw) the state with one error entry naming the file, the
  invalid-format toast and the status \<open>error\<close>; file and table are untouched and no
  reader is created, so the bytes are never parsed. The same holds for the picker and the
  drop event of the machine.
\<close>

theorem reject_unaccepted_file:
  assumes "\<not> list_ex (\<lambda>t. prefix t (ftype f)) ACCEPTED_FILE_TYPES"
      and "\<not> suffix ''.xlsx'' (name f)" and "\<not> suffix ''.xls'' (name f)"
      and "\<not> suffix ''.csv'' (name f)"
  shows "handleFileSelect now (Some f) s =
           s\<lparr>logs := \<lparr>timestamp = now, message = msg_invalid_type (name f), type = error\<rparr> # logs s,
             toasts := toasts s @ [toast_invalid_format], status := Error\<rparr> \<and>
         (dropzone_rendered s \<longrightarrow>
            status (step X now (FileChosen (Some f)) s) = Error \<and>
            readers (step X now (FileChosen (Some f)) s) = readers s \<and>
            file (step X now (FileChosen (Some f)) s) = file s \<and>
            jsonData (step X now (FileChosen (Some f)) s) = jsonData s \<and>
            status (step X now (Drop (Some f)) s) = Error \<and>
            readers (step X now (Drop (Some f)) s) = readers s)"
  using assms
  by (simp add: handleFileSelect_def isAccepted_def addLog_def toast_def step_def handleDrop_def)

theorem reject_unaccepted_file_witness:
  "\<not> list_ex (\<lambda>t. prefix t (ftype bad_file)) ACCEPTED_FILE_TYPES \<and>
   \<not> suffix ''.xlsx'' (name bad_file) \<and> \<not> suffix ''.xls'' (name bad_file) \<and>
   \<not> suffix ''.csv'' (name bad_file) \<and> dropzone_rendered init \<and>
   status (step stub_xlsx ''12:00:00'' (FileChosen (Some bad_file)) init) = Error \<and>
   readers (step stub_xlsx ''12:00:00'' (FileChosen (Some bad_file)) init) = []"
proof -
  have h1: "\<not> list_ex (\<lambda>t. prefix t (ftype bad_file)) ACCEPTED_FILE_TYPES" by code_simp
  have h2: "\<not> suffix ''.xlsx'' (name bad_file)" by code_simp
  have h3: "\<not> suffix ''.xls'' (name bad_file)" by code_simp
  have h4: "\<not> suffix ''.csv'' (name bad_file)" by code_simp
  have h5: "dropzone_rendered init" by code_simp
  have h6: "readers init = []" by code_simp
  from reject_unaccepted_file [OF h1 h2 h3 h4, of "''12:00:00''" init stub_xlsx] h1 h2 h3 h4 h5 h6
  show ?thesis by metis
qed

text \<open>
  C3. When the buffer decodes to no data row (\<open>sheet_to_json\<close> returns no row, or a first
  row without keys), \<open>reader.onload\<close> reports the empty file: one error entry, the
  empty-file toast and the status \<open>error\<close>; so does the step of the machine that delivers
  the buffer. In particular, with a decoder that finds no row in the empty buffer: the
  0-byte file \<open>empty.xlsx\<close> passes validation by its extension alone, and after its
  buffer is delivered the status is \<open>error\<close> and the log holds exactly one entry of type
  \<open>error\<close> (after the two \<open>info\<close> entries of the selection and the upload start).
\<close>

theorem empty_sheet_is_reported:
  assumes "xlsx_read X d = Inr wb"
      and "xlsx_sheet_to_json X (first_worksheet wb) = Inr rows"
      and "rows = [] \<or> Object_keys (hd rows) = []"
  shows "reader_onload X now (Some d) s =
           s\<lparr>logs := \<lparr>timestamp = now, message = msg_empty, type = error\<rparr> # logs s,
             toasts := toasts s @ [toast_empty], status := Error\<rparr> \<and>
         (i < length (readers s) \<and> content (readers s ! i) = d \<longrightarrow>
            status (step X now (ReaderLoaded i) s) = Error \<and>
            logs (step X now (ReaderLoaded i) s) =
              \<lparr>timestamp = now, message = msg_empty, type = error\<rparr> # logs s) \<and>
         (d = [] \<longrightarrow>
            \<not> list_ex (\<lambda>t. prefix t (ftype empty_xlsx)) ACCEPTED_FILE_TYPES \<and>
            suffix ''.xlsx'' (name empty_xlsx) \<and> isAccepted empty_xlsx \<and>
            status (step X now (FileChosen (Some empty_xlsx)) init) = Uploading \<and>
            status (run X now [FileChosen (Some empty_xlsx), ReaderLoaded 0] init) = Error \<and>
            filter (\<lambda>l. type l = error)
              (logs (run X now [FileChosen (Some empty_xlsx), ReaderLoaded 0] init)) =
              [\<lparr>timestamp = now, message = msg_empty, type = error\<rparr>])"
proof -
  have r: "\<And>s. reader_onload X now (Some d) s = onload_empty now s"
    using assms by (rule onload_try_empty)
  have a: "reader_onload X now (Some d) s =
           s\<lparr>logs := \<lparr>timestamp = now, message = msg_empty, type = error\<rparr> # logs s,
             toasts := toasts s @ [toast_empty], status := Error\<rparr>"
    by (simp add: r onload_empty_def addLog_def toast_def)
  have b: "\<And>s i. i < length (readers s) \<and> content (readers s ! i) = d \<longrightarrow>
            status (step X now (ReaderLoaded i) s) = Error \<and>
            logs (step X now (ReaderLoaded i) s) =
              \<lparr>timestamp = now, message = msg_empty, type = error\<rparr> # logs s"
    by (simp add: r step_reader_loaded onload_empty_def useEffect_logs)
  have c: "d = [] \<longrightarrow>
            \<not> list_ex (\<lambda>t. prefix t (ftype empty_xlsx)) ACCEPTED_FILE_TYPES \<and>
            suffix ''.xlsx'' (name empty_xlsx) \<and> isAccepted empty_xlsx \<and>
            status (step X now (FileChosen (Some empty_xlsx)) init) = Uploading \<and>
            status (run X now [FileChosen (Some empty_xlsx), ReaderLoaded 0] init) = Error \<and>
            filter (\<lambda>l. type l = error)
              (logs (run X now [FileChosen (Some empty_xlsx), ReaderLoaded 0] init)) =
              [\<lparr>timestamp = now, message = msg_empty, type = error\<rparr>]"
  proof
    assume d: "d = []"
    let ?s1 = "step X now (FileChosen (Some empty_xlsx)) init"
    have dz: "dropzone_rendered init" by (simp add: dropzone_rendered_def init_def)
    note f = step_file_accepted [OF dz empty_xlsx_accepted, of X now]
    have rd: "readers ?s1 = [empty_xlsx]" using f(6) by (simp add: init_def)
    have lg: "logs ?s1 = [\<lparr>timestamp = now, message = msg_upload_start, type = info\<rparr>,
                          \<lparr>timestamp = now, message = msg_selected (name empty_xlsx), type = info\<rparr>]"
      using f(11) by (simp add: init_def)
    have ce: "content empty_xlsx = []" by (simp add: empty_xlsx_def)
    have g: "0 < length (readers ?s1) \<and> content (readers ?s1 ! 0) = d"
      by (simp add: rd d ce)
    from b [of 0 ?s1] g have
      "status (step X now (ReaderLoaded 0) ?s1) = Error"
      "logs (step X now (ReaderLoaded 0) ?s1) =
         \<lparr>timestamp = now, message = msg_empty, type = error\<rparr> # logs ?s1"
      by blast+
    moreover have "\<not> list_ex (\<lambda>t. prefix t (ftype empty_xlsx)) ACCEPTED_FILE_TYPES"
      by code_simp
    moreover have "suffix ''.xlsx'' (name empty_xlsx)" by code_simp
    ultimately show
      "\<not> list_ex (\<lambda>t. prefix t (ftype empty_xlsx)) ACCEPTED_FILE_TYPES \<and>
       suffix ''.xlsx'' (name empty_xlsx) \<and> isAccepted empty_xlsx \<and>
       status ?s1 = Uploading \<and>
       status (run X now [FileChosen (Some empty_xlsx), ReaderLoaded 0] init) = Error \<and>
       filter (\<lambda>l. type l = error)
         (logs (run X now [FileChosen (Some empty_xlsx), ReaderLoaded 0] init)) =
         [\<lparr>timestamp = now, message = msg_empty, type = error\<rparr>]"
      by (simp add: lg f(1) empty_xlsx_accepted)
  qed
  from a b [of i s] c show ?thesis by blast
qed

theorem empty_sheet_is_reported_witness:
  "xlsx_read stub_xlsx [] =
     Inr \<lparr>SheetNames = [''Sheet1''], Sheets = (\<lambda>n. if n = ''Sheet1'' then Some [] else None)\<rparr> \<and>
   status (run stub_xlsx ''12:00:00'' [FileChosen (Some empty_xlsx), ReaderLoaded 0] init) = Error \<and>
   filter (\<lambda>l. type l = error)
     (logs (run stub_xlsx ''12:00:00'' [FileChosen (Some empty_xlsx), ReaderLoaded 0] init)) =
     [\<lparr>timestamp = ''12:00:00'', message = msg_empty, type = error\<rparr>]"
proof -
  let ?wb = "\<lparr>SheetNames = [''Sheet1''],
              Sheets = (\<lambda>n. if n = ''Sheet1'' then Some ([] :: row list) else None)\<rparr>"
  have h1: "xlsx_read stub_xlsx [] = Inr ?wb" by (simp add: stub_xlsx_def)
  have h2: "xlsx_sheet_to_json stub_xlsx (first_worksheet ?wb) = Inr []"
    by (simp add: stub_xlsx_def first_worksheet_def)
  have h3: "([] :: row list) = [] \<or> Object_keys (hd ([] :: row list)) = []" by simp
  from empty_sheet_is_reported [OF h1 h2 h3, of "''12:00:00''"] h1
  show ?thesis by blast
qed

text \<open>
  C5, as the code has it. After \<open>csv_file\<close> is chosen, ten fires of the ticker bring the
  progress to 100 and the status is still \<open>uploading\<close>; the eleventh fire leaves the
  progress at 100 and only then sets \<open>preview\<close>. So the progress does not grow on every
  fire, and \<open>preview\<close> is not entered at the fire on which the progress reaches 100.
\<close>

theorem preview_at_100_counterexample:
  "status (run stub_xlsx ''12:00:00'' (FileChosen (Some csv_file) # replicate 10 TickerFired) init)
     = Uploading \<and>
   progress (run stub_xlsx ''12:00:00'' (FileChosen (Some csv_file) # replicate 10 TickerFired) init)
     = 100 \<and>
   enabled TickerFired
     (run stub_xlsx ''12:00:00'' (FileChosen (Some csv_file) # replicate 10 TickerFired) init) \<and>
   status (run stub_xlsx ''12:00:00'' (FileChosen (Some csv_file) # replicate 11 TickerFired) init)
     = Preview \<and>
   progress (run stub_xlsx ''12:00:00'' (FileChosen (Some csv_file) # replicate 11 TickerFired) init)
     = 100"
  by code_simp

text \<open>
  C5, amended. For a reachable state \<open>s\<close> and the state after any one event:
  \<open>uploading\<close> is entered with progress 0; in \<open>uploading\<close> the ticker is installed and the
  progress is a multiple of ten, at most 100; a fire that finds the progress below 100
  adds 10 and stays in \<open>uploading\<close>; a fire that finds it at 100 leaves it at 100 and
  sets \<open>preview\<close>; as long as the status stays \<open>uploading\<close> the progress does not
  decrease; and \<open>preview\<close> is entered only by a fire of the ticker that finds the progress
  at 100.
\<close>

theorem progress_steps_to_100:
  assumes "reachable X s"
  shows "(status s \<noteq> Uploading \<and> status (step X now e s) = Uploading \<longrightarrow>
            progress (step X now e s) = 0) \<and>
         (status s = Uploading \<longrightarrow>
            enabled TickerFired s \<and> progress s \<le> 100 \<and> 10 dvd progress s) \<and>
         (status s = Uploading \<and> progress s < 100 \<longrightarrow>
            progress (step X now TickerFired s) = progress s + 10 \<and>
            status (step X now TickerFired s) = Uploading) \<and>
         (status s = Uploading \<and> progress s = 100 \<longrightarrow>
            progress (step X now TickerFired s) = 100 \<and>
            status (step X now TickerFired s) = Preview) \<and>
         (status s = Uploading \<and> status (step X now e s) = Uploading \<longrightarrow>
            progress s \<le> progress (step X now e s)) \<and>
         (status s \<noteq> Preview \<and> status (step X now e s) = Preview \<longrightarrow>
            e = TickerFired \<and> status s = Uploading \<and> progress s = 100)"
proof -
  note i = reachable_inv [OF assms]
  from inv_pg [OF i] have pg: "progress s \<le> 100" "10 dvd progress s" by blast+
  have up: "status s = Uploading \<Longrightarrow> \<exists>f. ticker s = Some f"
    using inv_tk [OF i] by auto
  have nup: "status s \<noteq> Uploading \<Longrightarrow> ticker s = None"
    using inv_tk [OF i] by auto
  have dl: "status s \<noteq> Processing \<Longrightarrow> delays s = []"
    using i unfolding pending_inv_def by blast
  have c2: "status s = Uploading \<longrightarrow>
            enabled TickerFired s \<and> progress s \<le> 100 \<and> 10 dvd progress s"
    using up pg by auto
  have c3: "status s = Uploading \<and> progress s < 100 \<longrightarrow>
            progress (step X now TickerFired s) = progress s + 10 \<and>
            status (step X now TickerFired s) = Uploading"
    using up step_tick_below [of s _ X now] by auto
  have c4: "status s = Uploading \<and> progress s = 100 \<longrightarrow>
            progress (step X now TickerFired s) = 100 \<and>
            status (step X now TickerFired s) = Preview"
    using up step_tick_full [of s _ X now] by auto
  have tick: "status (step X now TickerFired s) = Preview \<Longrightarrow> status s \<noteq> Preview \<Longrightarrow>
                status s = Uploading \<and> progress s = 100"
  proof -
    assume a: "status (step X now TickerFired s) = Preview" "status s \<noteq> Preview"
    have u: "status s = Uploading"
    proof (rule ccontr)
      assume "status s \<noteq> Uploading"
      then have "ticker s = None" by (rule nup)
      then have "step X now TickerFired s = s" by (simp add: step_def)
      with a show False by simp
    qed
    have "\<not> progress s < 100"
    proof
      assume "progress s < 100"
      with c3 u have "status (step X now TickerFired s) = Uploading" by blast
      with a show False by simp
    qed
    with pg u show ?thesis by simp
  qed
  have main: "(status s \<noteq> Uploading \<and> status (step X now e s) = Uploading \<longrightarrow>
            progress (step X now e s) = 0) \<and>
         (status s = Uploading \<and> status (step X now e s) = Uploading \<longrightarrow>
            progress s \<le> progress (step X now e s)) \<and>
         (status s \<noteq> Preview \<and> status (step X now e s) = Preview \<longrightarrow>
            e = TickerFired \<and> status s = Uploading \<and> progress s = 100)"
  proof (cases e)
    case (FileChosen fo)
    show ?thesis
    proof (cases "dropzone_rendered s")
      case False
      then show ?thesis by (simp add: FileChosen step_disabled)
    next
      case True
      then have nu: "status s \<noteq> Uploading" by (auto simp: dropzone_rendered_def)
      show ?thesis
      proof (cases fo)
        case None
        then show ?thesis by (simp add: FileChosen step_file_absent)
      next
        case (Some f)
        then show ?thesis using True nu
          by (cases "isAccepted f")
             (simp_all add: FileChosen step_file_accepted step_file_rejected)
      qed
    qed
  next
    case (Drop fo)
    show ?thesis
    proof (cases "dropzone_rendered s")
      case False
      then show ?thesis by (simp add: Drop step_disabled)
    next
      case True
      then have nu: "status s \<noteq> Uploading" by (auto simp: dropzone_rendered_def)
      show ?thesis
      proof (cases fo)
        case None
        then show ?thesis by (simp add: Drop step_drop_absent)
      next
        case (Some f)
        then show ?thesis using True nu
          by (cases "isAccepted f")
             (simp_all add: Drop step_drop_accepted step_drop_rejected)
      qed
    qed
  next
    case DragEnter
    then show ?thesis by (simp add: step_drag)
  next
    case DragLeave
    then show ?thesis by (simp add: step_drag)
  next
    case DragOver
    then show ?thesis by (simp add: step_drag)
  next
    case (ReaderLoaded i)
    from step_reader_loaded_status [of X now i s] show ?thesis
      by (auto simp add: ReaderLoaded step_reader_loaded_progress)
  next
    case (ReaderFailed i)
    show ?thesis
      by (cases "i < length (readers s)")
         (simp_all add: ReaderFailed step_reader_failed step_disabled)
  next
    case TickerFired
    show ?thesis
    proof (cases "status s = Uploading")
      case False
      then have "ticker s = None" by (rule nup)
      then have "step X now TickerFired s = s" by (simp add: step_def)
      then show ?thesis by (simp add: TickerFired)
    next
      case True
      with c3 c4 pg tick show ?thesis
        by (cases "progress s < 100") (auto simp add: TickerFired)
    qed
  next
    case ConfirmClicked
    show ?thesis
    proof (cases "enabled ConfirmClicked s")
      case False
      from step_disabled [OF False, of X now] show ?thesis by (simp add: ConfirmClicked)
    next
      case True
      with enabled_confirm [of s] have "status s = Preview" "jsonData s \<noteq> []" by blast+
      then show ?thesis by (simp add: ConfirmClicked step_confirm del: enabled.simps)
    qed
  next
    case (DelayElapsed thrown)
    show ?thesis
    proof (cases "delays s")
      case Nil
      then show ?thesis by (simp add: DelayElapsed step_def)
    next
      case (Cons d ds)
      with dl have "status s = Processing" by auto
      with Cons show ?thesis
        by (cases thrown) (simp_all add: DelayElapsed step_delay)
    qed
  next
    case ResetClicked
    show ?thesis
    proof (cases "enabled ResetClicked s")
      case False
      from step_disabled [OF False, of X now] show ?thesis by (simp add: ResetClicked)
    next
      case True
      with enabled_reset [of s] have "status s = Completed \<or> status s = Error" by blast
      then show ?thesis by (auto simp add: ResetClicked step_reset simp del: enabled.simps)
    qed
  qed
  from main c2 c3 c4 show ?thesis by blast
qed

theorem progress_steps_to_100_witness:
  "reachable stub_xlsx (uploading_csv 3) \<and> status (uploading_csv 3) = Uploading \<and>
   progress (uploading_csv 3) = 30 \<and>
   progress (step stub_xlsx ''12:00:01'' TickerFired (uploading_csv 3)) = 40 \<and>
   status (step stub_xlsx ''12:00:01'' TickerFired (uploading_csv 3)) = Uploading \<and>
   reachable stub_xlsx (uploading_csv 10) \<and> status (uploading_csv 10) = Uploading \<and>
   progress (uploading_csv 10) = 100 \<and>
   progress (step stub_xlsx ''12:00:02'' TickerFired (uploading_csv 10)) = 100 \<and>
   status (step stub_xlsx ''12:00:02'' TickerFired (uploading_csv 10)) = Preview \<and>
   reachable stub_xlsx init \<and> status init \<noteq> Uploading \<and>
   status (step stub_xlsx ''12:00:00'' (FileChosen (Some csv_file)) init) = Uploading \<and>
   progress (step stub_xlsx ''12:00:00'' (FileChosen (Some csv_file)) init) = 0"
proof -
  have r: "\<And>n. reachable stub_xlsx (uploading_csv n)"
    unfolding uploading_csv_def by (rule reachable_run [OF reachable_init])
  have a: "status (uploading_csv 3) = Uploading" "progress (uploading_csv 3) = 30"
    "(30 :: nat) < 100"
    by code_simp+
  have b: "status (uploading_csv 10) = Uploading" "progress (uploading_csv 10) = 100"
    by code_simp+
  have c: "status init \<noteq> Uploading"
    "status (step stub_xlsx ''12:00:00'' (FileChosen (Some csv_file)) init) = Uploading"
    by code_simp+
  from progress_steps_to_100 [OF r [of 3], of "''12:00:01''" TickerFired]
       progress_steps_to_100 [OF r [of 10], of "''12:00:02''" TickerFired]
       progress_steps_to_100 [OF reachable_init, of stub_xlsx "''12:00:00''" "FileChosen (Some csv_file)"]
       r [of 3] r [of 10] reachable_init [of stub_xlsx] a b c
  show ?thesis by (simp del: enabled.simps)
qed




text \<open>
  C1, as the code has it. Whether a buffer is reported as corrupt is decided by the
  decoder alone: only a thrown exception reaches the \<open>catch\<close>. The three bytes of
  \<open>garbage_xlsx\<close> are no spreadsheet and no CSV, but a decoder that falls back to reading
  text (as the library does) does not throw on them: it returns a sheet without data
  rows, and \<open>reader.onload\<close> reports the empty file, not the corrupt one.
\<close>

theorem invalid_buffer_reported_empty_counterexample:
  "isAccepted garbage_xlsx \<and> content garbage_xlsx = [0, 1, 2] \<and>
   status uploading_garbage = Uploading \<and> readers uploading_garbage = [garbage_xlsx] \<and>
   status (step stub_xlsx ''12:00:01'' (ReaderLoaded 0) uploading_garbage) = Error \<and>
   logs (step stub_xlsx ''12:00:01'' (ReaderLoaded 0) uploading_garbage) =
     \<lparr>timestamp = ''12:00:01'', message = msg_empty, type = error\<rparr> # logs uploading_garbage \<and>
   toasts (step stub_xlsx ''12:00:01'' (ReaderLoaded 0) uploading_garbage) = [toast_empty] \<and>
   msg_empty \<noteq> msg_corrupt \<and> toast_empty \<noteq> toast_corrupt"
  by code_simp

text \<open>
  C1, amended. Whenever the decoder throws on the buffer (\<open>XLSX.read\<close>, or
  \<open>sheet_to_json\<close> on the first sheet), the \<open>try\<close> body of \<open>reader.onload\<close> throws and the
  \<open>catch\<close> turns this into the corrupt-file failure: one error entry in the log, the
  parse-error toast and the status \<open>error\<close>; the same happens when the read result is
  missing. \<open>reader_onload\<close> returns a state in every case: nothing is thrown past it.
  The same is stated for the step of the machine that delivers the buffer of an
  outstanding reader.
\<close>

theorem decode_exception_is_caught:
  assumes "xlsx_read X d = Inl e \<or>
           (\<exists>wb. xlsx_read X d = Inr wb \<and> xlsx_sheet_to_json X (first_worksheet wb) = Inl e)"
  shows "onload_try X now (Some d) s = Inl e \<and>
         reader_onload X now (Some d) s =
           s\<lparr>logs := \<lparr>timestamp = now, message = msg_corrupt, type = error\<rparr> # logs s,
             toasts := toasts s @ [toast_corrupt], status := Error\<rparr> \<and>
         reader_onload X now None s =
           s\<lparr>logs := \<lparr>timestamp = now, message = msg_corrupt, type = error\<rparr> # logs s,
             toasts := toasts s @ [toast_corrupt], status := Error\<rparr> \<and>
         (i < length (readers s) \<and> content (readers s ! i) = d \<longrightarrow>
            status (step X now (ReaderLoaded i) s) = Error \<and>
            logs (step X now (ReaderLoaded i) s) =
              \<lparr>timestamp = now, message = msg_corrupt, type = error\<rparr> # logs s \<and>
            toasts (step X now (ReaderLoaded i) s) = toasts s @ [toast_corrupt] \<and>
            jsonData (step X now (ReaderLoaded i) s) = jsonData s)"
proof -
  have t: "\<And>s. onload_try X now (Some d) s = Inl e"
    using assms by (rule onload_try_throws)
  then have r: "\<And>s. reader_onload X now (Some d) s = onload_catch now s"
    by (simp add: reader_onload_def)
  have n: "reader_onload X now None s = onload_catch now s"
    by (simp add: reader_onload_def onload_try_def)
  show ?thesis
    by (simp add: t r n step_reader_loaded onload_catch_def addLog_def toast_def useEffect_logs)
qed

theorem decode_exception_is_caught_witness:
  "xlsx_read stub_xlsx (content corrupt_xlsx) = Inl (JsError ''Unsupported ZIP file'') \<and>
   status uploading_corrupt = Uploading \<and>
   status (step stub_xlsx ''12:00:01'' (ReaderLoaded 0) uploading_corrupt) = Error \<and>
   logs (step stub_xlsx ''12:00:01'' (ReaderLoaded 0) uploading_corrupt) =
     \<lparr>timestamp = ''12:00:01'', message = msg_corrupt, type = error\<rparr> # logs uploading_corrupt"
proof -
  have h: "xlsx_read stub_xlsx (content corrupt_xlsx) = Inl (JsError ''Unsupported ZIP file'')"
    by (simp add: stub_xlsx_def corrupt_xlsx_def corrupt_bytes_def csv_bytes_def)
  have g: "0 < length (readers uploading_corrupt) \<and>
           content (readers uploading_corrupt ! 0) = content corrupt_xlsx" by code_simp
  have u: "status uploading_corrupt = Uploading" by code_simp
  from decode_exception_is_caught [OF disjI1 [OF h], of "''12:00:01''" uploading_corrupt 0] g h u
  show ?thesis by blast
qed







text \<open>
  C7, as the code has it. \<open>reader.onload\<close> stores the records as the decoder returns
  them, and the library types the cells \<open>1\<close> and \<open>2\<close> of a CSV as numbers: the row maps
  \<open>a\<close> to the number 1 and \<open>b\<close> to the number 2, not to the strings, and the artifact
  holds the numbers unquoted. (The preview shows them through \<open>String\<close>.)
\<close>

theorem csv_cells_are_numbers_counterexample:
  "sheetHeaders (run stub_xlsx ''12:00:00'' [FileChosen (Some csv_file), ReaderLoaded 0] init)
     = [''a'', ''b''] \<and>
   jsonData (run stub_xlsx ''12:00:00'' [FileChosen (Some csv_file), ReaderLoaded 0] init)
     = [[(''a'', CNum 1), (''b'', CNum 2)]] \<and>
   [[(''a'', CNum 1), (''b'', CNum 2)]] \<noteq> [[(''a'', CStr ''1''), (''b'', CStr ''2'')]] \<and>
   downloads completed_csv =
     [(''processed_data.json'',
       ''['' @ [newline] @ ''  {'' @ [newline] @
       ''    '' @ [dquote] @ ''a'' @ [dquote] @ '': 1,'' @ [newline] @
       ''    '' @ [dquote] @ ''b'' @ [dquote] @ '': 2'' @ [newline] @
       ''  }'' @ [newline] @ '']'')] \<and>
   JSON_parse (snd (hd (downloads completed_csv))) = Inr [[(''a'', CNum 1), (''b'', CNum 2)]]"
  by code_simp

text \<open>
  C7, amended. Let the decoder read the bytes of the CSV (\<open>a,b\<close> and \<open>1,2\<close>) as one
  sheet whose only record has the keys \<open>a\<close> and \<open>b\<close>, with the cells typed as the numbers
  1 and 2 (the library's default) or as the strings \<open>1\<close> and \<open>2\<close>. Then choosing the file,
  the delivery of its buffer, the eleven ticker fires, the confirmation and the timeout
  end in \<open>completed\<close> with headers \<open>a, b\<close> and that one row as the decoder gave it;
  exactly one artifact was offered, named \<open>processed_data.json\<close>; its text is the
  two-space pretty-printed JSON of the rows (the headers occur in it as the keys of the
  record); and parsing this text back gives the same rows, header by header and value by
  value.
\<close>

theorem csv_round_trip:
  assumes "xlsx_read X csv_bytes = Inr wb"
      and "xlsx_sheet_to_json X (first_worksheet wb) = Inr [[(''a'', v1), (''b'', v2)]]"
      and "v1 = CNum 1 \<or> v1 = CStr ''1''"
      and "v2 = CNum 2 \<or> v2 = CStr ''2''"
  shows "status (run X now
           ([FileChosen (Some csv_file), ReaderLoaded 0] @ replicate 11 TickerFired @
            [ConfirmClicked, DelayElapsed None]) init) = Completed \<and>
         sheetHeaders (run X now
           ([FileChosen (Some csv_file), ReaderLoaded 0] @ replicate 11 TickerFired @
            [ConfirmClicked, DelayElapsed None]) init) = [''a'', ''b''] \<and>
         jsonData (run X now
           ([FileChosen (Some csv_file), ReaderLoaded 0] @ replicate 11 TickerFired @
            [ConfirmClicked, DelayElapsed None]) init) = [[(''a'', v1), (''b'', v2)]] \<and>
         downloads (run X now
           ([FileChosen (Some csv_file), ReaderLoaded 0] @ replicate 11 TickerFired @
            [ConfirmClicked, DelayElapsed None]) init) =
           [(''processed_data.json'', JSON_stringify [[(''a'', v1), (''b'', v2)]])] \<and>
         JSON_parse (JSON_stringify [[(''a'', v1), (''b'', v2)]]) = Inr [[(''a'', v1), (''b'', v2)]] \<and>
         (v1 = CNum 1 \<and> v2 = CNum 2 \<longrightarrow>
            JSON_stringify [[(''a'', v1), (''b'', v2)]] =
              ''['' @ [newline] @ ''  {'' @ [newline] @
              ''    '' @ [dquote] @ ''a'' @ [dquote] @ '': 1,'' @ [newline] @
              ''    '' @ [dquote] @ ''b'' @ [dquote] @ '': 2'' @ [newline] @
              ''  }'' @ [newline] @ '']'')"
proof -
  have acc: "isAccepted csv_file" by code_simp
  have cont: "content csv_file = csv_bytes" by (simp add: csv_file_def)
  have keys: "Object_keys [(''a'', v1), (''b'', v2)] = [''a'', ''b'']"
    by (simp add: Object_keys_def)
  have ne: "Object_keys [(''a'', v1), (''b'', v2)] \<noteq> []" by (simp add: Object_keys_def)
  note run = run_to_completed [of X csv_file wb "[(''a'', v1), (''b'', v2)]" "[]" now,
      unfolded cont, OF assms(1) assms(2) ne acc]
  have nn: "JSON_parse (JSON_stringify [[(''a'', CNum 1), (''b'', CNum 2)]]) =
              Inr [[(''a'', CNum 1), (''b'', CNum 2)]]" by code_simp
  have ns: "JSON_parse (JSON_stringify [[(''a'', CNum 1), (''b'', CStr ''2'')]]) =
              Inr [[(''a'', CNum 1), (''b'', CStr ''2'')]]" by code_simp
  have sn: "JSON_parse (JSON_stringify [[(''a'', CStr ''1''), (''b'', CNum 2)]]) =
              Inr [[(''a'', CStr ''1''), (''b'', CNum 2)]]" by code_simp
  have ss: "JSON_parse (JSON_stringify [[(''a'', CStr ''1''), (''b'', CStr ''2'')]]) =
              Inr [[(''a'', CStr ''1''), (''b'', CStr ''2'')]]" by code_simp
  have rt: "JSON_parse (JSON_stringify [[(''a'', v1), (''b'', v2)]]) =
                Inr [[(''a'', v1), (''b'', v2)]]"
    using assms(3,4) nn ns sn ss by blast
  have artifact: "JSON_stringify [[(''a'', CNum 1), (''b'', CNum 2)]] =
              ''['' @ [newline] @ ''  {'' @ [newline] @
              ''    '' @ [dquote] @ ''a'' @ [dquote] @ '': 1,'' @ [newline] @
              ''    '' @ [dquote] @ ''b'' @ [dquote] @ '': 2'' @ [newline] @
              ''  }'' @ [newline] @ '']''" by code_simp
  from run(1) run(3) run(4) run(5) keys rt artifact show ?thesis by (simp del: append.simps)
qed

theorem csv_round_trip_witness:
  "xlsx_read stub_xlsx csv_bytes =
     Inr \<lparr>SheetNames = [''Sheet1''],
          Sheets = (\<lambda>n. if n = ''Sheet1'' then Some rows_ab else None)\<rparr> \<and>
   status (run stub_xlsx ''12:00:00''
           ([FileChosen (Some csv_file), ReaderLoaded 0] @ replicate 11 TickerFired @
            [ConfirmClicked, DelayElapsed None]) init) = Completed \<and>
   jsonData (run stub_xlsx ''12:00:00''
           ([FileChosen (Some csv_file), ReaderLoaded 0] @ replicate 11 TickerFired @
            [ConfirmClicked, DelayElapsed None]) init) = [[(''a'', CNum 1), (''b'', CNum 2)]] \<and>
   JSON_parse (JSON_stringify [[(''a'', CNum 1), (''b'', CNum 2)]]) =
     Inr [[(''a'', CNum 1), (''b'', CNum 2)]]"
proof -
  let ?wb = "\<lparr>SheetNames = [''Sheet1''],
              Sheets = (\<lambda>n. if n = ''Sheet1'' then Some rows_ab else None)\<rparr>"
  have h1: "xlsx_read stub_xlsx csv_bytes = Inr ?wb"
    by (simp add: stub_xlsx_def csv_bytes_def)
  have h2: "xlsx_sheet_to_json stub_xlsx (first_worksheet ?wb) =
              Inr [[(''a'', CNum 1), (''b'', CNum 2)]]"
    by (simp add: stub_xlsx_def first_worksheet_def rows_ab_def)
  have h3: "CNum 1 = CNum 1 \<or> CNum 1 = CStr ''1''" by simp
  have h4: "CNum 2 = CNum 2 \<or> CNum 2 = CStr ''2''" by simp
  from csv_round_trip [OF h1 h2 h3 h4, of "''12:00:00''"] h1
  show ?thesis by blast
qed

end
